theory Spec2Isabelle
  imports Main
begin

section \<open>JavaScript strings\<close>

text \<open>
  A JavaScript string is modelled as a \<^typ>\<open>string\<close> whose characters are the code
  points below 256 (ASCII and Latin-1).  On that range \<open>trim\<close> and \<open>toLowerCase\<close>
  are written out as ECMAScript defines them: the white space and line terminator
  characters are U+0009 to U+000D, U+0020 and U+00A0; the letters with a lower case
  counterpart are A to Z and U+00C0 to U+00DE without U+00D7.
\<close>

definition isWhiteSpace :: "char \<Rightarrow> bool" where
  "isWhiteSpace c =
     (c = CHR 0x09 \<or> c = CHR 0x0A \<or> c = CHR 0x0B \<or> c = CHR 0x0C \<or> c = CHR 0x0D
      \<or> c = CHR 0x20 \<or> c = CHR 0xA0)"

definition trim :: "string \<Rightarrow> string" where
  "trim s = rev (dropWhile isWhiteSpace (rev (dropWhile isWhiteSpace s)))"

definition lowerChar :: "char \<Rightarrow> char" where
  "lowerChar c =
     (let n = (of_char c :: nat)
      in if (65 \<le> n \<and> n \<le> 90) \<or> (192 \<le> n \<and> n \<le> 222 \<and> n \<noteq> 215)
         then char_of (n + 32) else c)"

definition toLowerCase :: "string \<Rightarrow> string" where
  "toLowerCase s = map lowerChar s"

text \<open>\<open>s.split(sep)\<close> for a one-character separator: \<open>n\<close> separators give \<open>n + 1\<close> pieces.\<close>

fun splitOn :: "char \<Rightarrow> string \<Rightarrow> string list" where
  "splitOn sep [] = [[]]"
| "splitOn sep (c # cs) =
     (if c = sep then [] # splitOn sep cs
      else (case splitOn sep cs of
              [] \<Rightarrow> [[c]]
            | w # ws \<Rightarrow> (c # w) # ws))"

text \<open>\<open>xs.join(sep)\<close> on strings.\<close>

fun joinWith :: "string \<Rightarrow> string list \<Rightarrow> string" where
  "joinWith sep [] = []"
| "joinWith sep [x] = x"
| "joinWith sep (x # y # ys) = x @ sep @ joinWith sep (y # ys)"

text \<open>\<open>s.includes(t)\<close>: \<open>t\<close> occurs in \<open>s\<close> as a contiguous substring.\<close>

fun includesStr :: "string \<Rightarrow> string \<Rightarrow> bool" where
  "includesStr [] t = (t = [])"
| "includesStr (c # cs) t = (take (length t) (c # cs) = t \<or> includesStr cs t)"


section \<open>Toolset selection (index.ts)\<close>

text \<open>
  A toolset tag is a string (the TypeScript union type is erased at run time and
  \<open>parseToolsets\<close> casts unchecked strings to it).
\<close>

type_synonym Toolset = string



definition requestedToolsets :: "string \<Rightarrow> string list" where
  "requestedToolsets envValue =
     filter (\<lambda>t. length t > 0) (map (\<lambda>t. toLowerCase (trim t)) (splitOn CHR '','' envValue))"


text \<open>
  The tool descriptor \<open>MCPTool\<close>.  The schema and the handler are left polymorphic;
  \<open>toolsets\<close> is optional because the filter guards it with \<open>?.\<close> and \<open>??\<close>.
\<close>

record ('s, 'h) MCPTool =
  name :: string
  description :: string
  inputSchema :: 's
  toolsets :: "Toolset list option"
  handler :: 'h

text \<open>\<open>filterToolsByToolsets\<close> of index.ts.\<close>

definition toolInToolsets :: "Toolset list \<Rightarrow> ('s, 'h, 'z) MCPTool_scheme \<Rightarrow> bool" where
  "toolInToolsets active tool =
     (case toolsets tool of
        None \<Rightarrow> False
      | Some ts \<Rightarrow> list_ex (\<lambda>toolset. toolset \<in> set active) ts)"



section \<open>Toolset selection in the test file of a later revision (index.test.ts)\<close>

text \<open>
  index.test.ts does not import index.ts; it carries its own copy of the two functions
  ("recreating the function logic") and asserts on that copy.  The file belongs to a
  later revision than index.ts: its copy knows two more tags, \<open>dashboards\<close> and the
  catch-all \<open>all\<close>, and treats \<open>all\<close> specially.  It is kept here for comparison only.
\<close>

definition validToolsets_test :: "Toolset list" where
  "validToolsets_test =
     [''default'', ''schema'', ''content'', ''flow'', ''collections'', ''fields'', ''relations'',
      ''dashboards'', ''all'']"

definition parseToolsets_test :: "string option \<Rightarrow> Toolset list" where
  "parseToolsets_test envValue =
     (case envValue of
        None \<Rightarrow> [''default'']
      | Some v \<Rightarrow>
          if v = [] \<or> trim v = [] then [''default'']
          else
            let requested = requestedToolsets v;
                filtered = filter (\<lambda>t. t \<in> set validToolsets_test) requested
            in if ''all'' \<in> set filtered then [''all'']
               else if length filtered = 0 then [''default'']
               else filtered)"

definition filterToolsByToolsets_test ::
  "('s, 'h, 'z) MCPTool_scheme list \<Rightarrow> Toolset list \<Rightarrow> ('s, 'h, 'z) MCPTool_scheme list" where
  "filterToolsByToolsets_test tools active =
     (if ''all'' \<in> set active then tools else filter (toolInToolsets active) tools)"


section \<open>JavaScript values\<close>

text \<open>
  The values that cross the program's boundaries (tool arguments, request and response
  bodies, query parameters) are JSON data.  Numbers are modelled as integers: fractions,
  \<open>NaN\<close>, the infinities and magnitudes from \<open>10^21\<close> on (which \<open>String\<close> prints in
  exponent notation) are outside the model.  An object is its list of properties in
  enumeration order, with distinct keys.  Where the code can see \<open>undefined\<close>, the
  model has a \<open>json option\<close> and \<open>None\<close> is \<open>undefined\<close>.
\<close>

datatype json =
    JNull
  | JBool bool
  | JNum int
  | JStr string
  | JArr "json list"
  | JObj "(string \<times> json) list"

definition digitChar :: "nat \<Rightarrow> char" where
  "digitChar d = char_of (48 + d)"

fun showNat :: "nat \<Rightarrow> string" where
  "showNat n = (if n < 10 then [digitChar n] else showNat (n div 10) @ [digitChar (n mod 10)])"

definition showInt :: "int \<Rightarrow> string" where
  "showInt i = (if i < 0 then CHR ''-'' # showNat (nat (- i)) else showNat (nat i))"

text \<open>\<open>String(v)\<close>; an array prints its elements joined by commas, \<open>null\<close> elements as
  the empty string.\<close>

fun toStr :: "json \<Rightarrow> string" where
  "toStr JNull = ''null''"
| "toStr (JBool b) = (if b then ''true'' else ''false'')"
| "toStr (JNum n) = showInt n"
| "toStr (JStr s) = s"
| "toStr (JArr xs) = joinWith '','' (map (\<lambda>x. if x = JNull then [] else toStr x) xs)"
| "toStr (JObj kvs) = ''[object Object]''"

definition toStrOpt :: "json option \<Rightarrow> string" where
  "toStrOpt v = (case v of None \<Rightarrow> ''undefined'' | Some x \<Rightarrow> toStr x)"

text \<open>Truthiness, as \<open>if (v)\<close>, \<open>!v\<close>, \<open>&&\<close> and \<open>||\<close> test it.\<close>

fun truthy :: "json \<Rightarrow> bool" where
  "truthy JNull = False"
| "truthy (JBool b) = b"
| "truthy (JNum n) = (n \<noteq> 0)"
| "truthy (JStr s) = (s \<noteq> [])"
| "truthy (JArr xs) = True"
| "truthy (JObj kvs) = True"

definition truthyOpt :: "json option \<Rightarrow> bool" where
  "truthyOpt v = (case v of None \<Rightarrow> False | Some x \<Rightarrow> truthy x)"

text \<open>\<open>a || b\<close>.\<close>

definition jsOr :: "json option \<Rightarrow> json option \<Rightarrow> json option" where
  "jsOr a b = (if truthyOpt a then a else b)"

text \<open>\<open>a?.k\<close> and \<open>a?.[0]\<close>: \<open>undefined\<close> when \<open>a\<close> is \<open>undefined\<close> or \<open>null\<close>.  The keys
  read in this program (\<open>errors\<close>, \<open>message\<close>) are not properties of the built-in
  prototypes, so only an object has them.\<close>

fun jsonProp :: "string \<Rightarrow> json \<Rightarrow> json option" where
  "jsonProp k (JObj kvs) = map_of kvs k"
| "jsonProp k v = None"

fun jsonIndex0 :: "json \<Rightarrow> json option" where
  "jsonIndex0 (JArr xs) = (case xs of [] \<Rightarrow> None | x # _ \<Rightarrow> Some x)"
| "jsonIndex0 (JStr s) = (case s of [] \<Rightarrow> None | c # _ \<Rightarrow> Some (JStr [c]))"
| "jsonIndex0 (JObj kvs) = map_of kvs ''0''"
| "jsonIndex0 v = None"

definition optChain :: "json option \<Rightarrow> (json \<Rightarrow> json option) \<Rightarrow> json option" where
  "optChain a f = (case a of None \<Rightarrow> None | Some JNull \<Rightarrow> None | Some v \<Rightarrow> f v)"

definition isArray :: "json \<Rightarrow> bool" where
  "isArray v = (case v of JArr xs \<Rightarrow> True | _ \<Rightarrow> False)"


section \<open>JSON.stringify\<close>

definition hexDigitLower :: "nat \<Rightarrow> char" where
  "hexDigitLower d = (if d < 10 then char_of (48 + d) else char_of (87 + d))"

definition quoteChar :: "char \<Rightarrow> string" where
  "quoteChar c =
     (if c = CHR 0x22 then [CHR 0x5C, CHR 0x22]
      else if c = CHR 0x5C then [CHR 0x5C, CHR 0x5C]
      else if c = CHR 0x08 then [CHR 0x5C, CHR ''b'']
      else if c = CHR 0x0C then [CHR 0x5C, CHR ''f'']
      else if c = CHR 0x0A then [CHR 0x5C, CHR ''n'']
      else if c = CHR 0x0D then [CHR 0x5C, CHR ''r'']
      else if c = CHR 0x09 then [CHR 0x5C, CHR ''t'']
      else if (of_char c :: nat) < 32
        then [CHR 0x5C, CHR ''u'', CHR ''0'', CHR ''0'',
              hexDigitLower ((of_char c :: nat) div 16), hexDigitLower ((of_char c :: nat) mod 16)]
      else [c])"

definition quoteJSONString :: "string \<Rightarrow> string" where
  "quoteJSONString s = CHR 0x22 # concat (map quoteChar s) @ [CHR 0x22]"

text \<open>
  The serialisation of ECMAScript's \<open>SerializeJSONProperty\<close>, with the \<open>gap\<close> and the
  current \<open>indent\<close>: an empty gap gives the compact form of \<open>JSON.stringify(v)\<close>, a gap
  of two spaces the form of \<open>JSON.stringify(v, null, 2)\<close>.
\<close>

fun serializeJSON :: "string \<Rightarrow> string \<Rightarrow> json \<Rightarrow> string" where
  "serializeJSON gap indent JNull = ''null''"
| "serializeJSON gap indent (JBool b) = (if b then ''true'' else ''false'')"
| "serializeJSON gap indent (JNum n) = showInt n"
| "serializeJSON gap indent (JStr s) = quoteJSONString s"
| "serializeJSON gap indent (JArr xs) =
     (if xs = [] then ''[]''
      else if gap = []
        then ''['' @ joinWith '','' (map (serializeJSON gap (indent @ gap)) xs) @ '']''
      else ''['' @ [CHR 0x0A] @ (indent @ gap)
           @ joinWith ('','' @ [CHR 0x0A] @ (indent @ gap))
               (map (serializeJSON gap (indent @ gap)) xs)
           @ [CHR 0x0A] @ indent @ '']'')"
| "serializeJSON gap indent (JObj kvs) =
     (if kvs = [] then ''{}''
      else if gap = []
        then ''{'' @ joinWith '',''
               (map (\<lambda>(k, v). quoteJSONString k @ '':'' @ serializeJSON gap (indent @ gap) v) kvs)
             @ ''}''
      else ''{'' @ [CHR 0x0A] @ (indent @ gap)
           @ joinWith ('','' @ [CHR 0x0A] @ (indent @ gap))
               (map (\<lambda>(k, v). quoteJSONString k @ '': '' @ serializeJSON gap (indent @ gap) v) kvs)
           @ [CHR 0x0A] @ indent @ ''}'')"

text \<open>\<open>JSON.stringify(v)\<close> and \<open>JSON.stringify(v, null, 2)\<close>; both give \<open>undefined\<close> for
  \<open>undefined\<close>.\<close>

definition JSON_stringify :: "json \<Rightarrow> string" where
  "JSON_stringify v = serializeJSON [] [] v"

definition JSON_stringify_2 :: "json option \<Rightarrow> string option" where
  "JSON_stringify_2 v = map_option (serializeJSON ''  '' []) v"


section \<open>Thrown values\<close>

text \<open>
  JavaScript can throw any value.  A thrown value is \<open>undefined\<close>, a JSON-like value (a
  primitive or a plain object), or an \<open>Error\<close> instance with its \<open>name\<close>, its \<open>message\<close>
  and its further own properties.
\<close>

datatype thrown =
    ThrownUndefined
  | ThrownJson json
  | ThrownError string string "(string \<times> json) list"

definition newError :: "string \<Rightarrow> thrown" where
  "newError msg = ThrownError ''Error'' msg []"

definition newTypeError :: "string \<Rightarrow> thrown" where
  "newTypeError msg = ThrownError ''TypeError'' msg []"

text \<open>The \<open>TypeError\<close>s of the engine, with V8's wording.\<close>

definition cannotRead :: "string \<Rightarrow> string \<Rightarrow> thrown" where
  "cannotRead what prop =
     newTypeError (''Cannot read properties of '' @ what @ '' (reading '' @ [CHR 0x27] @ prop
                   @ [CHR 0x27] @ '')'')"

definition notAFunction :: "string \<Rightarrow> thrown" where
  "notAFunction expr = newTypeError (expr @ '' is not a function'')"

text \<open>\<open>error?.k\<close> on a thrown value.\<close>

fun thrownProp :: "string \<Rightarrow> thrown \<Rightarrow> json option" where
  "thrownProp k ThrownUndefined = None"
| "thrownProp k (ThrownJson v) = jsonProp k v"
| "thrownProp k (ThrownError n m ps) =
     (if k = ''message'' then Some (JStr m)
      else if k = ''name'' then Some (JStr n)
      else map_of ps k)"

text \<open>\<open>String(error)\<close>; \<open>Error.prototype.toString\<close> joins name and message.\<close>

fun thrownToString :: "thrown \<Rightarrow> string" where
  "thrownToString ThrownUndefined = ''undefined''"
| "thrownToString (ThrownJson v) = toStr v"
| "thrownToString (ThrownError n m ps) =
     (if m = [] then n else if n = [] then m else n @ '': '' @ m)"

text \<open>\<open>error instanceof Error ? error.message : String(error)\<close>.\<close>

fun errorMessageOrString :: "thrown \<Rightarrow> string" where
  "errorMessageOrString (ThrownError n m ps) = m"
| "errorMessageOrString e = thrownToString e"


section \<open>The resource client (directus-client.ts)\<close>

record DirectusConfig =
  url :: string
  token :: "string option"
  email :: "string option"
  password :: "string option"

text \<open>Truthiness of an optional string: present and not empty.\<close>

definition truthyStr :: "string option \<Rightarrow> bool" where
  "truthyStr s = (case s of None \<Rightarrow> False | Some v \<Rightarrow> v \<noteq> [])"

text \<open>
  The client object of the Directus SDK is built by \<open>createDirectus(url)\<close> and
  \<open>with(plugin)\<close>; the model keeps how the object was composed.  The SDK is not part of
  this repository.  \<open>createDirectus\<close> parses its argument with the \<open>URL\<close> constructor and
  so throws the \<open>TypeError\<close> \<open>Invalid URL\<close> for a string that does not parse; which
  strings parse is a parameter \<open>parsesUrl\<close> of the model.  \<open>with\<close> returns normally, and
  neither makes a network call.
\<close>

datatype sdk_plugin = Rest | StaticToken string | Authentication string

datatype sdk_client = CreateDirectus string | With sdk_client sdk_plugin

record DirectusClient =
  client :: "sdk_client option"
  config :: DirectusConfig
  baseUrl :: string
  authHeaders :: "(string \<times> string) list"

text \<open>\<open>url.replace(/\/$/, '')\<close>.\<close>

definition removeTrailingSlash :: "string \<Rightarrow> string" where
  "removeTrailingSlash s = (if s \<noteq> [] \<and> last s = CHR ''/'' then butlast s else s)"

definition createDirectus :: "(string \<Rightarrow> bool) \<Rightarrow> string \<Rightarrow> thrown + sdk_client" where
  "createDirectus parsesUrl u =
     (if parsesUrl u then Inr (CreateDirectus u) else Inl (newTypeError ''Invalid URL''))"

text \<open>\<open>initializeClient\<close> builds the SDK client first, then sets the authorisation header
  on \<open>this\<close> and returns the client, or throws.\<close>

definition initializeClient ::
  "(string \<Rightarrow> bool) \<Rightarrow> DirectusClient \<Rightarrow> thrown + (sdk_client \<times> DirectusClient)" where
  "initializeClient parsesUrl this =
     (case createDirectus parsesUrl (url (config this)) of
        Inl e \<Rightarrow> Inl e
      | Inr d \<Rightarrow>
          (let c = With d Rest;
               withoutToken =
                 (if truthyStr (email (config this)) \<and> truthyStr (password (config this))
                  then Inr (With c (Authentication ''json''), this)
                  else Inl (newError
                    ''Authentication configuration required: provide either token or email/password''))
           in case token (config this) of
                None \<Rightarrow> withoutToken
              | Some t \<Rightarrow>
                  if t \<noteq> []
                  then Inr (With c (StaticToken t),
                            this\<lparr>authHeaders := [(''Authorization'', ''Bearer '' @ t)]\<rparr>)
                  else withoutToken))"

text \<open>The constructor \<open>new DirectusClient(config)\<close>.\<close>

definition newDirectusClient :: "(string \<Rightarrow> bool) \<Rightarrow> DirectusConfig \<Rightarrow> thrown + DirectusClient" where
  "newDirectusClient parsesUrl cfg =
     (let this = \<lparr>client = None, config = cfg, baseUrl = removeTrailingSlash (url cfg),
                  authHeaders = []\<rparr>
      in case initializeClient parsesUrl this of
           Inl e \<Rightarrow> Inl e
         | Inr (c, this') \<Rightarrow> Inr (this'\<lparr>client := Some c\<rparr>))"

text \<open>
  Network activity is recorded as a list of events: a \<open>fetch\<close> call with its URL and
  options, a read of a response body with \<open>response.json()\<close>, a login exchange of the SDK.
\<close>

record RequestInit =
  reqMethod :: string
  headers :: "(string \<times> string) list"
  body :: "string option"

record Response =
  ok :: bool
  status :: nat
  statusText :: string
  jsonBody :: "thrown + json"

datatype event = Fetch string RequestInit | ReadJson | Login string string

text \<open>\<open>authenticate\<close>: only a client composed with the authentication plugin has a
  \<open>login\<close> method.\<close>

fun hasLogin :: "sdk_client option \<Rightarrow> bool" where
  "hasLogin (Some (With c (Authentication m))) = True"
| "hasLogin c = False"

definition authenticate ::
  "(string \<Rightarrow> string \<Rightarrow> thrown + unit) \<Rightarrow> DirectusClient \<Rightarrow> event list \<times> (thrown + unit)" where
  "authenticate login this =
     (case (email (config this), password (config this)) of
        (Some e, Some p) \<Rightarrow>
          if e \<noteq> [] \<and> p \<noteq> [] then
            (if hasLogin (client this) then
               (case login e p of
                  Inl error \<Rightarrow>
                    ([Login e p],
                     Inl (newError (''Authentication failed: '' @ errorMessageOrString error)))
                | Inr u \<Rightarrow> ([Login e p], Inr ()))
             else
               ([], Inl (newError (''Authentication failed: ''
                   @ errorMessageOrString (notAFunction ''this.client.login'')))))
          else ([], Inr ())
      | _ \<Rightarrow> ([], Inr ()))"

text \<open>\<open>createDirectusClient\<close>: construct, then authenticate.\<close>

definition createDirectusClient ::
  "(string \<Rightarrow> bool) \<Rightarrow> (string \<Rightarrow> string \<Rightarrow> thrown + unit) \<Rightarrow> DirectusConfig
     \<Rightarrow> event list \<times> (thrown + DirectusClient)" where
  "createDirectusClient parsesUrl login cfg =
     (case newDirectusClient parsesUrl cfg of
        Inl e \<Rightarrow> ([], Inl e)
      | Inr c \<Rightarrow>
          (case authenticate login c of
             (evs, Inl e) \<Rightarrow> (evs, Inl e)
           | (evs, Inr u) \<Rightarrow> (evs, Inr c)))"

subsection \<open>request\<close>

text \<open>The \<open>catch\<close> block of \<open>request\<close>.  \<open>error.message.includes(...)\<close> is evaluated
  first and without a guard; its outcome is a \<open>TypeError\<close> or a truth value.\<close>

fun messageIncludes :: "json option \<Rightarrow> thrown + bool" where
  "messageIncludes None = Inl (cannotRead ''undefined'' ''includes'')"
| "messageIncludes (Some JNull) = Inl (cannotRead ''null'' ''includes'')"
| "messageIncludes (Some (JStr m)) = Inr (includesStr m ''Directus API error:'')"
| "messageIncludes (Some (JArr xs)) = Inr (JStr ''Directus API error:'' \<in> set xs)"
| "messageIncludes (Some v) = Inl (notAFunction ''error.message.includes'')"

definition wrapError :: "thrown \<Rightarrow> thrown" where
  "wrapError error =
     (let errorMessage =
            jsOr (optChain (optChain (thrownProp ''errors'' error) jsonIndex0) (jsonProp ''message''))
              (jsOr (thrownProp ''message'' error) (Some (JStr (thrownToString error))))
      in newError (''Directus API error: '' @ toStrOpt errorMessage))"

fun requestCatch :: "thrown \<Rightarrow> thrown" where
  "requestCatch ThrownUndefined = cannotRead ''undefined'' ''message''"
| "requestCatch (ThrownJson JNull) = cannotRead ''null'' ''message''"
| "requestCatch error =
     (case messageIncludes (thrownProp ''message'' error) of
        Inl typeError \<Rightarrow> typeError
      | Inr True \<Rightarrow> error
      | Inr False \<Rightarrow> wrapError error)"

text \<open>The message thrown for a response that is not \<open>ok\<close>.\<close>

definition apiErrorMessage :: "json \<Rightarrow> string \<Rightarrow> string" where
  "apiErrorMessage errorData statusTxt =
     toStrOpt
       (jsOr (optChain (optChain (optChain (Some errorData) (jsonProp ''errors'')) jsonIndex0)
                (jsonProp ''message''))
          (jsOr (optChain (Some errorData) (jsonProp ''message'')) (Some (JStr statusTxt))))"

definition requestBody :: "string \<Rightarrow> json option \<Rightarrow> string option" where
  "requestBody m data =
     (case data of
        None \<Rightarrow> None
      | Some d \<Rightarrow>
          if truthy d \<and> (m = ''POST'' \<or> m = ''PATCH'' \<or> m = ''PUT'') then Some (JSON_stringify d)
          else if truthy d \<and> m = ''DELETE'' \<and> isArray d then Some (JSON_stringify d)
          else None)"

text \<open>The URL and the options that \<open>request\<close> passes to \<open>fetch\<close>.\<close>

definition requestUrl :: "DirectusClient \<Rightarrow> string \<Rightarrow> string" where
  "requestUrl this endpoint = baseUrl this @ endpoint"

definition requestOptions :: "DirectusClient \<Rightarrow> string \<Rightarrow> json option \<Rightarrow> RequestInit" where
  "requestOptions this m data =
     \<lparr>reqMethod = m,
      headers = (''Content-Type'', ''application/json'') # authHeaders this,
      body = requestBody m data\<rparr>"

text \<open>
  \<open>request(method, endpoint, data?)\<close> against a transport \<open>fetch\<close>, which either throws
  or answers with a response.  The result is the list of network events and the
  outcome: \<open>Inl\<close> a rejection, \<open>Inr\<close> the resolved value.
\<close>

definition request ::
  "(string \<Rightarrow> RequestInit \<Rightarrow> thrown + Response) \<Rightarrow> DirectusClient \<Rightarrow> string \<Rightarrow> string
     \<Rightarrow> json option \<Rightarrow> event list \<times> (thrown + json)" where
  "request fetch this m endpoint data =
     (let u = requestUrl this endpoint;
          options = requestOptions this m data
      in case fetch u options of
           Inl error \<Rightarrow> ([Fetch u options], Inl (requestCatch error))
         | Inr response \<Rightarrow>
             if \<not> ok response then
               (let errorData = (case jsonBody response of Inl e \<Rightarrow> JObj [] | Inr d \<Rightarrow> d);
                    errorMessage = apiErrorMessage errorData (statusText response)
                in ([Fetch u options, ReadJson],
                    Inl (requestCatch (newError (''Directus API error: '' @ errorMessage)))))
             else if status response = 204 then
               ([Fetch u options], Inr (JObj [(''success'', JBool True)]))
             else
               (case jsonBody response of
                  Inl error \<Rightarrow> ([Fetch u options, ReadJson], Inl (requestCatch error))
                | Inr d \<Rightarrow> ([Fetch u options, ReadJson], Inr d)))"


section \<open>The query encoder\<close>

text \<open>
  \<open>URLSearchParams.toString()\<close> is the \<open>application/x-www-form-urlencoded\<close> serialiser:
  a string is encoded in UTF-8, a byte that is an ASCII letter or digit or one of
  \<open>* - . _\<close> stands for itself, a space becomes \<open>+\<close> and every other byte becomes \<open>%XX\<close>
  with upper-case hexadecimal digits.  A code point from 128 to 255 has two UTF-8 bytes.
\<close>

definition hexDigitUpper :: "nat \<Rightarrow> char" where
  "hexDigitUpper d = (if d < 10 then char_of (48 + d) else char_of (55 + d))"

definition utf8EncodeChar :: "char \<Rightarrow> char list" where
  "utf8EncodeChar c =
     (let n = (of_char c :: nat)
      in if n < 128 then [c] else [char_of (192 + n div 64), char_of (128 + n mod 64)])"

definition isUrlSafe :: "char \<Rightarrow> bool" where
  "isUrlSafe b =
     (let n = (of_char b :: nat)
      in (48 \<le> n \<and> n \<le> 57) \<or> (65 \<le> n \<and> n \<le> 90) \<or> (97 \<le> n \<and> n \<le> 122)
         \<or> b = CHR ''*'' \<or> b = CHR ''-'' \<or> b = CHR ''.'' \<or> b = CHR ''_'')"

definition urlencodeByte :: "char \<Rightarrow> string" where
  "urlencodeByte b =
     (if isUrlSafe b then [b]
      else if b = CHR 0x20 then ''+''
      else [CHR ''%'', hexDigitUpper ((of_char b :: nat) div 16),
            hexDigitUpper ((of_char b :: nat) mod 16)])"

definition urlencodeChar :: "char \<Rightarrow> string" where
  "urlencodeChar c = concat (map urlencodeByte (utf8EncodeChar c))"

definition urlencode :: "string \<Rightarrow> string" where
  "urlencode s = concat (map urlencodeChar s)"

definition encodePair :: "string \<times> string \<Rightarrow> string" where
  "encodePair kv = urlencode (fst kv) @ ''='' @ urlencode (snd kv)"

definition serializeUrlencoded :: "(string \<times> string) list \<Rightarrow> string" where
  "serializeUrlencoded pairs = joinWith ''&'' (map encodePair pairs)"

text \<open>
  The parameter bag is an object (\<open>params: any\<close>): a map from property names to values,
  \<open>None\<close> where the property is \<open>undefined\<close>.
\<close>

type_synonym QueryParams = "string \<Rightarrow> json option"

text \<open>\<open>xs.join(sep)\<close> on an array of values.\<close>

definition arrayJoin :: "string \<Rightarrow> json list \<Rightarrow> string" where
  "arrayJoin sep xs = joinWith sep (map (\<lambda>x. if x = JNull then [] else toStr x) xs)"

text \<open>\<open>Array.isArray(v) ? v.join(',') : v\<close>, converted to a string by \<open>append\<close>.\<close>

definition joinIfArray :: "json \<Rightarrow> string" where
  "joinIfArray v = (case v of JArr xs \<Rightarrow> arrayJoin '','' xs | _ \<Rightarrow> toStr v)"

text \<open>\<open>if (params.k) append(k, f(params.k))\<close> and
  \<open>if (params.k !== undefined) append(k, String(params.k))\<close>.\<close>

definition whenTruthy :: "QueryParams \<Rightarrow> string \<Rightarrow> (json \<Rightarrow> string) \<Rightarrow> (string \<times> string) list" where
  "whenTruthy params k f =
     (case params k of None \<Rightarrow> [] | Some v \<Rightarrow> if truthy v then [(k, f v)] else [])"

definition whenDefined :: "QueryParams \<Rightarrow> string \<Rightarrow> (string \<times> string) list" where
  "whenDefined params k = (case params k of None \<Rightarrow> [] | Some v \<Rightarrow> [(k, toStr v)])"

text \<open>The value appended for a key that is tested for truthiness, if any.\<close>

definition emitted :: "QueryParams \<Rightarrow> string \<Rightarrow> (json \<Rightarrow> string) \<Rightarrow> string option" where
  "emitted params k f =
     (case params k of None \<Rightarrow> None | Some v \<Rightarrow> if truthy v then Some (f v) else None)"

text \<open>The entries appended to the \<open>URLSearchParams\<close> object, in the order of the code.
  (The older copy of the client, src/src/directus-client.ts, is the same function without
  the \<open>export\<close> key.)\<close>

definition queryParams :: "QueryParams \<Rightarrow> (string \<times> string) list" where
  "queryParams params =
     whenTruthy params ''fields'' joinIfArray
     @ whenTruthy params ''filter'' JSON_stringify
     @ whenTruthy params ''search'' toStr
     @ whenTruthy params ''sort'' joinIfArray
     @ whenDefined params ''limit''
     @ whenDefined params ''offset''
     @ whenDefined params ''page''
     @ whenTruthy params ''aggregate'' JSON_stringify
     @ whenTruthy params ''groupBy'' joinIfArray
     @ whenTruthy params ''deep'' JSON_stringify
     @ whenTruthy params ''meta'' toStr
     @ whenTruthy params ''export'' toStr"

definition buildQueryString :: "QueryParams \<Rightarrow> string" where
  "buildQueryString params =
     (let query = serializeUrlencoded (queryParams params)
      in if query \<noteq> [] then ''?'' @ query else [])"


section \<open>The tool wrappers (tool-helpers.ts)\<close>

text \<open>
  An asynchronous handler is run to completion: it takes the client, the arguments
  object and the state of the world, and gives its outcome (\<open>Inl\<close> a rejection, \<open>Inr\<close>
  the resolved value), the arguments object as it left it, and the new state of the
  world.  The arguments object is passed by reference, so what the handler writes into
  it is seen by whoever reads the object afterwards.
\<close>

type_synonym ('c, 'a, 'w, 'r) handler_fn = "'c \<Rightarrow> 'a \<Rightarrow> 'w \<Rightarrow> (thrown + 'r) \<times> 'a \<times> 'w"

record ContentBlock =
  contentType :: string
  contentText :: "string option"

record ToolResult =
  content :: "ContentBlock list"

definition createTool ::
  "('s, ('c, 'a, 'w, json option) handler_fn) MCPTool
     \<Rightarrow> ('s, ('c, 'a, 'w, ToolResult) handler_fn) MCPTool" where
  "createTool cfg =
     \<lparr>name = name cfg,
      description = description cfg,
      inputSchema = inputSchema cfg,
      toolsets = toolsets cfg,
      handler = (\<lambda>c args w.
        case handler cfg c args w of
          (Inl e, args', w') \<Rightarrow> (Inl e, args', w')
        | (Inr result, args', w') \<Rightarrow>
            (Inr \<lparr>content = [\<lparr>contentType = ''text'',
                                contentText = JSON_stringify_2 result\<rparr>]\<rparr>, args', w'))\<rparr>"

text \<open>The definition of an action tool adds \<open>successMessage\<close>, a synchronous function of
  the arguments object; it may leave a trace in the world.\<close>

record ('s, 'h, 'a, 'w) ActionToolConfig = "('s, 'h) MCPTool" +
  successMessage :: "'a \<Rightarrow> 'w \<Rightarrow> string \<times> 'w"

definition createActionTool ::
  "('s, ('c, 'a, 'w, 'r) handler_fn, 'a, 'w) ActionToolConfig
     \<Rightarrow> ('s, ('c, 'a, 'w, ToolResult) handler_fn) MCPTool" where
  "createActionTool cfg =
     \<lparr>name = name cfg,
      description = description cfg,
      inputSchema = inputSchema cfg,
      toolsets = toolsets cfg,
      handler = (\<lambda>c args w.
        case handler cfg c args w of
          (Inl e, args', w') \<Rightarrow> (Inl e, args', w')
        | (Inr u, args', w') \<Rightarrow>
            (case successMessage cfg args' w' of
               (msg, w'') \<Rightarrow>
                 (Inr \<lparr>content = [\<lparr>contentType = ''text'', contentText = Some msg\<rparr>]\<rparr>,
                  args', w'')))\<rparr>"


section \<open>Reading a query string back\<close>

text \<open>
  The specification checks the encoder by parsing its output back: the leading \<open>?\<close> is
  dropped, the rest is split on \<open>&\<close>, every piece is split at \<open>=\<close> and both parts are
  decoded.  \<open>percentDecode False\<close> is percent-decoding as \<open>decodeURIComponent\<close> does it
  (a \<open>+\<close> stays a \<open>+\<close>); \<open>percentDecode True\<close> is the decoding of
  \<open>application/x-www-form-urlencoded\<close> data, which reads a \<open>+\<close> as a space first.  An
  escape sequence that is malformed or that stands for a code point above 255 gives
  \<open>None\<close>.
\<close>

definition hexVal :: "char \<Rightarrow> nat option" where
  "hexVal c =
     (let n = (of_char c :: nat)
      in if 48 \<le> n \<and> n \<le> 57 then Some (n - 48)
         else if 65 \<le> n \<and> n \<le> 70 then Some (n - 55)
         else if 97 \<le> n \<and> n \<le> 102 then Some (n - 87)
         else None)"

definition hexByte :: "char \<Rightarrow> char \<Rightarrow> nat option" where
  "hexByte h1 h2 =
     (case (hexVal h1, hexVal h2) of (Some a, Some b) \<Rightarrow> Some (16 * a + b) | _ \<Rightarrow> None)"

fun percentDecode :: "bool \<Rightarrow> string \<Rightarrow> string option" where
  "percentDecode form [] = Some []"
| "percentDecode form (c # cs) =
     (if c = CHR ''%'' then
        (case cs of
           h1 # h2 # r \<Rightarrow>
             (case hexByte h1 h2 of
                None \<Rightarrow> None
              | Some n \<Rightarrow>
                  if n < 128 then map_option (Cons (char_of n)) (percentDecode form r)
                  else if n = 194 \<or> n = 195 then
                    (case r of
                       p # h3 # h4 # r' \<Rightarrow>
                         (if p = CHR ''%'' then
                            (case hexByte h3 h4 of
                               None \<Rightarrow> None
                             | Some k \<Rightarrow>
                                 if 128 \<le> k \<and> k < 192
                                 then map_option (Cons (char_of ((n - 192) * 64 + (k - 128))))
                                        (percentDecode form r')
                                 else None)
                          else None)
                     | _ \<Rightarrow> None)
                  else None)
         | _ \<Rightarrow> None)
      else if form \<and> c = CHR ''+'' then map_option (Cons (CHR 0x20)) (percentDecode form cs)
      else map_option (Cons c) (percentDecode form cs))"

definition splitPair :: "string \<Rightarrow> string \<times> string" where
  "splitPair p =
     (takeWhile (\<lambda>c. c \<noteq> CHR ''='') p, drop 1 (dropWhile (\<lambda>c. c \<noteq> CHR ''='') p))"

definition decodePair :: "bool \<Rightarrow> string \<Rightarrow> (string \<times> string) option" where
  "decodePair form p =
     (case splitPair p of
        (k, v) \<Rightarrow>
          (case (percentDecode form k, percentDecode form v) of
             (Some k', Some v') \<Rightarrow> Some (k', v')
           | _ \<Rightarrow> None))"

definition parseQueryWith :: "bool \<Rightarrow> string \<Rightarrow> (string \<times> string) list option" where
  "parseQueryWith form q =
     (let s = (case q of [] \<Rightarrow> [] | c # r \<Rightarrow> if c = CHR ''?'' then r else q)
      in if s = [] then Some [] else those (map (decodePair form) (splitOn CHR ''&'' s)))"

text \<open>Parsing back as the specification words it, and with form decoding.\<close>

definition parseBack :: "string \<Rightarrow> (string \<times> string) list option" where
  "parseBack q = parseQueryWith False q"

definition parseBackForm :: "string \<Rightarrow> (string \<times> string) list option" where
  "parseBackForm q = parseQueryWith True q"

text \<open>
  The keys of the encoder in the order of emission, the keys present in a bag, and the
  bags whose values have the declared types of \<open>QueryParams\<close>.
\<close>

definition queryKeys :: "string list" where
  "queryKeys =
     [''fields'', ''filter'', ''search'', ''sort'', ''limit'', ''offset'', ''page'', ''aggregate'',
      ''groupBy'', ''deep'', ''meta'', ''export'']"

definition presentKeys :: "QueryParams \<Rightarrow> string list" where
  "presentKeys params = filter (\<lambda>k. params k \<noteq> None) queryKeys"

definition isStringArray :: "json \<Rightarrow> bool" where
  "isStringArray v =
     (case v of JArr xs \<Rightarrow> list_all (\<lambda>x. case x of JStr s \<Rightarrow> True | _ \<Rightarrow> False) xs | _ \<Rightarrow> False)"

definition isObject :: "json \<Rightarrow> bool" where
  "isObject v = (case v of JObj kvs \<Rightarrow> True | _ \<Rightarrow> False)"

definition isString :: "json \<Rightarrow> bool" where
  "isString v = (case v of JStr s \<Rightarrow> True | _ \<Rightarrow> False)"

definition isNumber :: "json \<Rightarrow> bool" where
  "isNumber v = (case v of JNum n \<Rightarrow> True | _ \<Rightarrow> False)"

definition hasType :: "QueryParams \<Rightarrow> string \<Rightarrow> (json \<Rightarrow> bool) \<Rightarrow> bool" where
  "hasType params k P = (case params k of None \<Rightarrow> True | Some v \<Rightarrow> P v)"

definition declaredTypes :: "QueryParams \<Rightarrow> bool" where
  "declaredTypes params =
     (hasType params ''fields'' isStringArray \<and> hasType params ''filter'' isObject
      \<and> hasType params ''search'' isString \<and> hasType params ''sort'' isStringArray
      \<and> hasType params ''limit'' isNumber \<and> hasType params ''offset'' isNumber
      \<and> hasType params ''page'' isNumber \<and> hasType params ''aggregate'' isObject
      \<and> hasType params ''groupBy'' isStringArray \<and> hasType params ''deep'' isObject
      \<and> hasType params ''meta'' isString \<and> hasType params ''export'' isString)"

text \<open>The string-valued keys hold no empty string.\<close>

definition nonEmptyStrings :: "QueryParams \<Rightarrow> bool" where
  "nonEmptyStrings params =
     (params ''search'' \<noteq> Some (JStr []) \<and> params ''meta'' \<noteq> Some (JStr [])
      \<and> params ''export'' \<noteq> Some (JStr []))"


section \<open>JSON.parse\<close>

text \<open>
  \<open>JSON.parse\<close> is the decoder of the JSON-valued keys.  It is a recursive descent over
  the JSON grammar with white space between tokens; the recursion is bounded by a fuel
  that \<open>JSON_parse\<close> sets above the length of the text.  Numbers with a fraction or an
  exponent and four-digit escapes above 255 are outside the model and give \<open>None\<close>.
\<close>

definition isDigit :: "char \<Rightarrow> bool" where
  "isDigit c = (48 \<le> (of_char c :: nat) \<and> (of_char c :: nat) \<le> 57)"

definition isJsonWhiteSpace :: "char \<Rightarrow> bool" where
  "isJsonWhiteSpace c = (c = CHR 0x20 \<or> c = CHR 0x09 \<or> c = CHR 0x0A \<or> c = CHR 0x0D)"

definition skipWs :: "string \<Rightarrow> string" where
  "skipWs s = dropWhile isJsonWhiteSpace s"

definition readNat :: "string \<Rightarrow> nat" where
  "readNat ds = foldl (\<lambda>acc d. 10 * acc + ((of_char d :: nat) - 48)) 0 ds"

definition parseDigits :: "string \<Rightarrow> (nat \<times> string) option" where
  "parseDigits s =
     (let ds = takeWhile isDigit s; r = dropWhile isDigit s
      in if ds = [] then None
         else if hd ds = CHR ''0'' \<and> length ds > 1 then None
         else (case r of
                 [] \<Rightarrow> Some (readNat ds, r)
               | c # _ \<Rightarrow> if c = CHR ''.'' \<or> c = CHR ''e'' \<or> c = CHR ''E'' then None
                          else Some (readNat ds, r)))"

definition parseNumber :: "string \<Rightarrow> (json \<times> string) option" where
  "parseNumber s =
     (case s of
        [] \<Rightarrow> None
      | c # cs \<Rightarrow>
          if c = CHR ''-''
          then map_option (\<lambda>(n, r). (JNum (- int n), r)) (parseDigits cs)
          else map_option (\<lambda>(n, r). (JNum (int n), r)) (parseDigits s))"

definition unescapeChar :: "char \<Rightarrow> char option" where
  "unescapeChar e =
     (if e = CHR 0x22 then Some (CHR 0x22)
      else if e = CHR 0x5C then Some (CHR 0x5C)
      else if e = CHR ''/'' then Some (CHR ''/'')
      else if e = CHR ''b'' then Some (CHR 0x08)
      else if e = CHR ''f'' then Some (CHR 0x0C)
      else if e = CHR ''n'' then Some (CHR 0x0A)
      else if e = CHR ''r'' then Some (CHR 0x0D)
      else if e = CHR ''t'' then Some (CHR 0x09)
      else None)"

definition hex4 :: "char \<Rightarrow> char \<Rightarrow> char \<Rightarrow> char \<Rightarrow> nat option" where
  "hex4 h1 h2 h3 h4 =
     (case (hexByte h1 h2, hexByte h3 h4) of
        (Some a, Some b) \<Rightarrow> Some (256 * a + b)
      | _ \<Rightarrow> None)"

fun parseString :: "string \<Rightarrow> (string \<times> string) option" where
  "parseString [] = None"
| "parseString (c # cs) =
     (if c = CHR 0x22 then Some ([], cs)
      else if c = CHR 0x5C then
        (case cs of
           [] \<Rightarrow> None
         | e # r \<Rightarrow>
             if e = CHR ''u'' then
               (case r of
                  h1 # h2 # h3 # h4 # r' \<Rightarrow>
                    (case hex4 h1 h2 h3 h4 of
                       None \<Rightarrow> None
                     | Some n \<Rightarrow>
                         if n < 256
                         then map_option (\<lambda>(s, t). (char_of n # s, t)) (parseString r')
                         else None)
                | _ \<Rightarrow> None)
             else
               (case unescapeChar e of
                  None \<Rightarrow> None
                | Some x \<Rightarrow> map_option (\<lambda>(s, t). (x # s, t)) (parseString r)))
      else if (of_char c :: nat) < 32 then None
      else map_option (\<lambda>(s, t). (c # s, t)) (parseString cs))"

fun parseValue :: "nat \<Rightarrow> string \<Rightarrow> (json \<times> string) option"
  and parseElements :: "nat \<Rightarrow> string \<Rightarrow> (json list \<times> string) option"
  and parseMembers :: "nat \<Rightarrow> string \<Rightarrow> ((string \<times> json) list \<times> string) option" where
  "parseValue 0 s = None"
| "parseValue (Suc fuel) s =
     (case skipWs s of
        [] \<Rightarrow> None
      | c # cs \<Rightarrow>
          if c = CHR ''n'' then (if take 3 cs = ''ull'' then Some (JNull, drop 3 cs) else None)
          else if c = CHR ''t'' then (if take 3 cs = ''rue'' then Some (JBool True, drop 3 cs) else None)
          else if c = CHR ''f'' then (if take 4 cs = ''alse'' then Some (JBool False, drop 4 cs) else None)
          else if c = CHR 0x22 then map_option (\<lambda>(x, r). (JStr x, r)) (parseString cs)
          else if c = CHR ''['' then
            (case skipWs cs of
               [] \<Rightarrow> None
             | d # r \<Rightarrow> if d = CHR '']'' then Some (JArr [], r)
                        else map_option (\<lambda>(xs, r). (JArr xs, r)) (parseElements fuel cs))
          else if c = CHR ''{'' then
            (case skipWs cs of
               [] \<Rightarrow> None
             | d # r \<Rightarrow> if d = CHR ''}'' then Some (JObj [], r)
                        else map_option (\<lambda>(kvs, r). (JObj kvs, r)) (parseMembers fuel cs))
          else if c = CHR ''-'' \<or> isDigit c then parseNumber (c # cs)
          else None)"
| "parseElements 0 s = None"
| "parseElements (Suc fuel) s =
     (case parseValue fuel s of
        None \<Rightarrow> None
      | Some (v, r) \<Rightarrow>
          (case skipWs r of
             [] \<Rightarrow> None
           | d # r' \<Rightarrow>
               if d = CHR '','' then map_option (\<lambda>(vs, t). (v # vs, t)) (parseElements fuel r')
               else if d = CHR '']'' then Some ([v], r')
               else None))"
| "parseMembers 0 s = None"
| "parseMembers (Suc fuel) s =
     (case skipWs s of
        [] \<Rightarrow> None
      | q # s1 \<Rightarrow>
          if q = CHR 0x22 then
            (case parseString s1 of
               None \<Rightarrow> None
             | Some (k, s2) \<Rightarrow>
                 (case skipWs s2 of
                    [] \<Rightarrow> None
                  | c # s3 \<Rightarrow>
                      if c = CHR '':'' then
                        (case parseValue fuel s3 of
                           None \<Rightarrow> None
                         | Some (v, r) \<Rightarrow>
                             (case skipWs r of
                                [] \<Rightarrow> None
                              | d # r' \<Rightarrow>
                                  if d = CHR '','' then
                                    map_option (\<lambda>(kvs, t). ((k, v) # kvs, t)) (parseMembers fuel r')
                                  else if d = CHR ''}'' then Some ([(k, v)], r')
                                  else None))
                      else None))
          else None)"

definition JSON_parse :: "string \<Rightarrow> json option" where
  "JSON_parse s =
     (case parseValue (Suc (length s)) s of
        None \<Rightarrow> None
      | Some (v, r) \<Rightarrow> if skipWs r = [] then Some v else None)"

text \<open>
  What the specification asks of a parser \<open>parse\<close> of query strings on a bag: the encoded
  bag parses, the keys read back are the keys present in the bag, every array-valued
  key reads back as the comma-joined array, and every JSON-valued key reads back as a
  text that \<open>JSON.parse\<close> turns into the original structure.
\<close>

definition recoversBag ::
  "(string \<Rightarrow> (string \<times> string) list option) \<Rightarrow> QueryParams \<Rightarrow> bool" where
  "recoversBag parse params =
     (case parse (buildQueryString params) of
        None \<Rightarrow> False
      | Some pairs \<Rightarrow>
          set (map fst pairs) = set (presentKeys params)
          \<and> list_all (\<lambda>k. case params k of
                             Some (JArr xs) \<Rightarrow> map_of pairs k = Some (arrayJoin '','' xs)
                           | _ \<Rightarrow> True)
                [''fields'', ''sort'', ''groupBy'']
          \<and> list_all (\<lambda>k. case params k of
                             Some v \<Rightarrow> Option.bind (map_of pairs k) JSON_parse = Some v
                           | None \<Rightarrow> True)
                [''filter'', ''aggregate'', ''deep''])"

text \<open>
  What may follow a number in a JSON text without being read as a part of it, and short
  names for the compact serialisation of a value and of an object member.
\<close>

definition numberEnd :: "string \<Rightarrow> bool" where
  "numberEnd rest =
     (case rest of [] \<Rightarrow> True
      | c # _ \<Rightarrow> \<not> isDigit c \<and> c \<noteq> CHR ''.'' \<and> c \<noteq> CHR ''e'' \<and> c \<noteq> CHR ''E'')"

abbreviation ser :: "json \<Rightarrow> string" where
  "ser \<equiv> serializeJSON [] []"

abbreviation serMember :: "string \<times> json \<Rightarrow> string" where
  "serMember \<equiv> (\<lambda>(k, v). quoteJSONString k @ '':'' @ ser v)"


section \<open>Example inputs\<close>

text \<open>The client that the test suite builds, and transports answering as its mocks do.\<close>

definition exampleConfig :: DirectusConfig where
  "exampleConfig =
     \<lparr>url = ''https://directus.example.com'', token = Some ''test-token'',
      email = None, password = None\<rparr>"

text \<open>
  In the examples the URL parser is taken to accept the strings that begin with a
  scheme (an ASCII letter, then letters, digits, \<open>+\<close>, \<open>-\<close> or \<open>.\<close>, then a colon).  Like
  the \<open>URL\<close> constructor it accepts the URL of the test suite and rejects \<open>not a url\<close>.
\<close>

definition isAsciiAlpha :: "char \<Rightarrow> bool" where
  "isAsciiAlpha c =
     (let n = (of_char c :: nat) in (65 \<le> n \<and> n \<le> 90) \<or> (97 \<le> n \<and> n \<le> 122))"

definition isSchemeChar :: "char \<Rightarrow> bool" where
  "isSchemeChar c =
     (let n = (of_char c :: nat)
      in isAsciiAlpha c \<or> (48 \<le> n \<and> n \<le> 57) \<or> c = CHR ''+'' \<or> c = CHR ''-'' \<or> c = CHR ''.'')"

definition hasScheme :: "string \<Rightarrow> bool" where
  "hasScheme u =
     (case u of
        [] \<Rightarrow> False
      | c # cs \<Rightarrow>
          isAsciiAlpha c
          \<and> (case dropWhile isSchemeChar cs of [] \<Rightarrow> False | d # r \<Rightarrow> d = CHR '':''))"

definition badUrlConfig :: DirectusConfig where
  "badUrlConfig = \<lparr>url = ''not a url'', token = Some ''t'', email = None, password = None\<rparr>"

definition badUrlNoCredentials :: DirectusConfig where
  "badUrlNoCredentials = \<lparr>url = ''not a url'', token = None, email = None, password = None\<rparr>"

definition noCredentials :: DirectusConfig where
  "noCredentials =
     \<lparr>url = ''https://directus.example.com'', token = None, email = None, password = None\<rparr>"

definition emailOnly :: DirectusConfig where
  "emailOnly =
     \<lparr>url = ''https://directus.example.com'', token = None,
      email = Some ''test@example.com'', password = None\<rparr>"

definition emailAndPassword :: DirectusConfig where
  "emailAndPassword =
     \<lparr>url = ''https://directus.example.com'', token = None,
      email = Some ''test@example.com'', password = Some ''test-password''\<rparr>"

definition exampleClient :: DirectusClient where
  "exampleClient =
     \<lparr>client = Some (With (With (CreateDirectus ''https://directus.example.com'') Rest)
                      (StaticToken ''test-token'')),
      config = exampleConfig,
      baseUrl = ''https://directus.example.com'',
      authHeaders = [(''Authorization'', ''Bearer test-token'')]\<rparr>"

definition fetchNotFound :: "string \<Rightarrow> RequestInit \<Rightarrow> thrown + Response" where
  "fetchNotFound u options =
     Inr \<lparr>ok = False, status = 404, statusText = ''Not Found'',
          jsonBody = Inr (JObj [(''errors'', JArr [JObj [(''message'', JStr ''Not found'')]])])\<rparr>"

definition fetchNoContent :: "string \<Rightarrow> RequestInit \<Rightarrow> thrown + Response" where
  "fetchNoContent u options =
     Inr \<lparr>ok = True, status = 204, statusText = ''No Content'',
          jsonBody = Inl (newError ''No content'')\<rparr>"

definition fetchNetworkError :: "string \<Rightarrow> RequestInit \<Rightarrow> thrown + Response" where
  "fetchNetworkError u options = Inl (newError ''Network error'')"

text \<open>A transport that rejects with a string instead of an \<open>Error\<close>.\<close>

definition fetchThrowsString :: "string \<Rightarrow> RequestInit \<Rightarrow> thrown + Response" where
  "fetchThrowsString u options = Inl (ThrownJson (JStr ''socket hang up''))"



text \<open>
  A data tool whose handler resolves to an object, and three action tools: one whose
  handler leaves its arguments alone, one whose handler normalises its arguments in
  place before it resolves (as the handler of \<open>create_collection\<close> does with
  \<open>args.schema\<close>), and one whose handler rejects.  The world is a log of the calls made.
\<close>

definition dataHandler :: "(unit, json, string list, json option) handler_fn" where
  "dataHandler c args w = (Inr (Some (JObj [(''id'', JNum 1)])), args, w @ [''handler''])"

definition dataToolConfig ::
  "(unit, (unit, json, string list, json option) handler_fn) MCPTool" where
  "dataToolConfig =
     \<lparr>name = ''get_item'', description = ''Get an item'', inputSchema = (),
      toolsets = Some [''default'', ''content''], handler = dataHandler\<rparr>"

definition collectionMessage :: "json \<Rightarrow> string list \<Rightarrow> string \<times> string list" where
  "collectionMessage args w =
     (''Collection '' @ toStrOpt (jsonProp ''collection'' args) @ '' deleted'',
      w @ [''successMessage''])"

definition normalisingHandler :: "(unit, json, string list, unit) handler_fn" where
  "normalisingHandler c args w =
     (Inr (), JObj [(''collection'', JStr (toLowerCase (toStrOpt (jsonProp ''collection'' args))))],
      w @ [''handler''])"

definition plainHandler :: "(unit, json, string list, unit) handler_fn" where
  "plainHandler c args w = (Inr (), args, w @ [''handler''])"

definition rejectingHandler :: "(unit, json, string list, unit) handler_fn" where
  "rejectingHandler c args w = (Inl (newError ''Directus API error: Forbidden''), args, w @ [''handler''])"

definition actionToolConfig ::
  "(unit, (unit, json, string list, unit) handler_fn, json, string list) ActionToolConfig" where
  "actionToolConfig =
     \<lparr>name = ''delete_collection'', description = ''Delete a collection'', inputSchema = (),
      toolsets = Some [''default'', ''collections''], handler = normalisingHandler,
      successMessage = collectionMessage\<rparr>"

definition plainToolConfig ::
  "(unit, (unit, json, string list, unit) handler_fn, json, string list) ActionToolConfig" where
  "plainToolConfig =
     \<lparr>name = ''delete_collection'', description = ''Delete a collection'', inputSchema = (),
      toolsets = Some [''default'', ''collections''], handler = plainHandler,
      successMessage = collectionMessage\<rparr>"

definition rejectingToolConfig ::
  "(unit, (unit, json, string list, unit) handler_fn, json, string list) ActionToolConfig" where
  "rejectingToolConfig =
     \<lparr>name = ''delete_collection'', description = ''Delete a collection'', inputSchema = (),
      toolsets = Some [''default'', ''collections''], handler = rejectingHandler,
      successMessage = collectionMessage\<rparr>"

text \<open>
  Parameter bags: the one of the specification's scenario, one with an empty search
  string and a field name with a space, one with an empty field list, and one with
  falsy values.
\<close>

definition scenarioBag :: QueryParams where
  "scenarioBag =
     [''fields'' \<mapsto> JArr [JStr ''id'', JStr ''title''],
      ''limit'' \<mapsto> JNum 10,
      ''filter'' \<mapsto> JObj [(''status'', JObj [(''_eq'', JStr ''published'')])]]"

definition emptySearchBag :: QueryParams where
  "emptySearchBag = [''search'' \<mapsto> JStr [], ''fields'' \<mapsto> JArr [JStr ''a b'']]"

definition emptyFieldsBag :: QueryParams where
  "emptyFieldsBag = [''fields'' \<mapsto> JArr []]"

definition falsyBag :: QueryParams where
  "falsyBag =
     [''fields'' \<mapsto> JArr [], ''search'' \<mapsto> JStr [], ''meta'' \<mapsto> JNull,
      ''limit'' \<mapsto> JNum 0, ''offset'' \<mapsto> JNum 0]"

text \<open>The arguments of the action tool example.\<close>

definition articlesArgs :: json where
  "articlesArgs = JObj [(''collection'', JStr ''Articles'')]"

section \<open>Decoding inverts the URL encoding\<close>

lemma hexVal_upper: "d < 16 \<Longrightarrow> hexVal (hexDigitUpper d) = Some d"
  by (auto simp: hexVal_def hexDigitUpper_def Let_def)

lemma hexByte_upper: "n < 256 \<Longrightarrow> hexByte (hexDigitUpper (n div 16)) (hexDigitUpper (n mod 16)) = Some n"
  by (simp add: hexByte_def hexVal_upper less_mult_imp_div_less)

lemma of_char_lt_256: "(of_char c :: nat) < 256"
  by (cases c) simp

lemma decode_byte_safe:
  "isUrlSafe b \<Longrightarrow> percentDecode form (b # rest) = map_option (Cons b) (percentDecode form rest)"
  by (auto simp: isUrlSafe_def Let_def)

lemma decode_escape_low:
  assumes "n < 128"
  shows "percentDecode form (CHR ''%'' # hexDigitUpper (n div 16) # hexDigitUpper (n mod 16) # rest)
         = map_option (Cons (char_of n)) (percentDecode form rest)"
  using assms by (simp add: hexByte_upper)

lemma decode_escape_two:
  assumes "n = 194 \<or> n = 195" and "128 \<le> k" and "k < 192"
  shows "percentDecode form (CHR ''%'' # hexDigitUpper (n div 16) # hexDigitUpper (n mod 16)
           # CHR ''%'' # hexDigitUpper (k div 16) # hexDigitUpper (k mod 16) # rest)
         = map_option (Cons (char_of ((n - 192) * 64 + (k - 128)))) (percentDecode form rest)"
proof -
  have n: "hexByte (hexDigitUpper (n div 16)) (hexDigitUpper (n mod 16)) = Some n"
    using assms(1) by (intro hexByte_upper) auto
  have k: "hexByte (hexDigitUpper (k div 16)) (hexDigitUpper (k mod 16)) = Some k"
    using assms(3) by (intro hexByte_upper) auto
  show ?thesis using assms by (auto simp: n k)
qed

lemma not_safe_high: "128 \<le> (of_char b :: nat) \<Longrightarrow> \<not> isUrlSafe b \<and> b \<noteq> CHR 0x20"
  by (auto simp: isUrlSafe_def Let_def)

lemma decode_space:
  "percentDecode True (urlencodeChar (CHR 0x20) @ rest)
   = map_option (Cons (CHR 0x20)) (percentDecode True rest)"
  by (simp add: urlencodeChar_def utf8EncodeChar_def urlencodeByte_def isUrlSafe_def)

lemma decode_char_low:
  assumes "(of_char c :: nat) < 128" and "c \<noteq> CHR 0x20"
  shows "percentDecode form (urlencodeChar c @ rest) = map_option (Cons c) (percentDecode form rest)"
proof -
  have enc: "urlencodeChar c = urlencodeByte c"
    using assms(1) by (simp add: urlencodeChar_def utf8EncodeChar_def)
  show ?thesis
  proof (cases "isUrlSafe c")
    case True
    then show ?thesis by (simp add: enc urlencodeByte_def decode_byte_safe del: percentDecode.simps)
  next
    case False
    have "percentDecode form (urlencodeByte c @ rest)
          = map_option (Cons (char_of (of_char c :: nat))) (percentDecode form rest)"
      using False assms
      by (simp add: urlencodeByte_def decode_escape_low del: percentDecode.simps)
    then show ?thesis by (simp add: enc)
  qed
qed

lemma decode_char_high:
  assumes "\<not> (of_char c :: nat) < 128"
  shows "percentDecode form (urlencodeChar c @ rest) = map_option (Cons c) (percentDecode form rest)"
proof -
  define n where "n = (of_char c :: nat)"
  have n: "128 \<le> n" "n < 256" using assms by (simp_all add: n_def of_char_lt_256)
  define b1 where "b1 = 192 + n div 64"
  define b2 where "b2 = 128 + n mod 64"
  have "128 div 64 \<le> n div 64" using n(1) by (rule div_le_mono)
  moreover have "n div 64 < 4" using n(2) by (simp add: less_mult_imp_div_less)
  ultimately have b1: "b1 = 194 \<or> b1 = 195" unfolding b1_def by auto
  have b2: "128 \<le> b2" "b2 < 192" unfolding b2_def by simp_all
  have ob1: "(of_char (char_of b1 :: char) :: nat) = b1" using b1 by auto
  have ob2: "(of_char (char_of b2 :: char) :: nat) = b2" using b2 by simp
  have u1: "urlencodeByte (char_of b1) = [CHR ''%'', hexDigitUpper (b1 div 16), hexDigitUpper (b1 mod 16)]"
    using not_safe_high[of "char_of b1"] b1 by (auto simp add: urlencodeByte_def ob1)
  have u2: "urlencodeByte (char_of b2) = [CHR ''%'', hexDigitUpper (b2 div 16), hexDigitUpper (b2 mod 16)]"
    using not_safe_high[of "char_of b2"] b2 by (auto simp add: urlencodeByte_def ob2)
  have enc: "urlencodeChar c = urlencodeByte (char_of b1) @ urlencodeByte (char_of b2)"
    using assms by (simp add: urlencodeChar_def utf8EncodeChar_def n_def b1_def b2_def Let_def)
  have val: "(b1 - 192) * 64 + (b2 - 128) = n" unfolding b1_def b2_def by simp
  have "percentDecode form (urlencodeChar c @ rest)
        = map_option (Cons (char_of ((b1 - 192) * 64 + (b2 - 128)))) (percentDecode form rest)"
    unfolding enc u1 u2 using decode_escape_two[OF b1 b2] by (simp del: percentDecode.simps)
  then show ?thesis by (simp add: val n_def)
qed

lemma decode_char:
  assumes "form \<or> c \<noteq> CHR 0x20"
  shows "percentDecode form (urlencodeChar c @ rest) = map_option (Cons c) (percentDecode form rest)"
proof (cases "c = CHR 0x20")
  case True
  with assms have "form = True" by simp
  show ?thesis unfolding True \<open>form = True\<close> by (rule decode_space)
next
  case False
  then show ?thesis
    by (cases "(of_char c :: nat) < 128") (rule decode_char_low decode_char_high; assumption)+
qed

lemma decode_urlencode:
  assumes "form \<or> CHR 0x20 \<notin> set s"
  shows "percentDecode form (urlencode s @ rest) = map_option ((@) s) (percentDecode form rest)"
  using assms
proof (induction s)
  case Nil
  show ?case by (simp add: urlencode_def option.map_ident)
next
  case (Cons c s)
  have "percentDecode form (urlencode (c # s) @ rest)
        = percentDecode form (urlencodeChar c @ (urlencode s @ rest))"
    by (simp add: urlencode_def)
  also have "\<dots> = map_option (Cons c) (percentDecode form (urlencode s @ rest))"
    using Cons.prems by (intro decode_char) auto
  also have "\<dots> = map_option ((@) (c # s)) (percentDecode form rest)"
    using Cons by (cases "percentDecode form rest") auto
  finally show ?case .
qed

lemma splitOn_no_sep: "sep \<notin> set s \<Longrightarrow> splitOn sep s = [s]"
  by (induction s) auto

lemma splitOn_append_sep:
  "sep \<notin> set x \<Longrightarrow> splitOn sep (x @ sep # rest) = x # splitOn sep rest"
  by (induction x) auto

lemma splitOn_joinWith:
  "\<forall>x \<in> set (x0 # xs). sep \<notin> set x \<Longrightarrow> splitOn sep (joinWith [sep] (x0 # xs)) = x0 # xs"
  by (induction xs arbitrary: x0) (auto simp: splitOn_no_sep splitOn_append_sep)

lemma of_char_hexDigitUpper:
  "d < 16 \<Longrightarrow> (of_char (hexDigitUpper d) :: nat) = (if d < 10 then 48 + d else 55 + d)"
  by (simp add: hexDigitUpper_def)

lemma urlencodeByte_plain:
  assumes "c \<in> set (urlencodeByte b)"
  shows "(of_char c :: nat) \<noteq> 38 \<and> (of_char c :: nat) \<noteq> 61"
proof -
  have d: "(of_char b :: nat) div 16 < 16" "(of_char b :: nat) mod 16 < 16"
    using of_char_lt_256[of b] by (simp_all add: less_mult_imp_div_less)
  consider "isUrlSafe b" "c = b" | "c = CHR ''+''" | "c = CHR ''%''"
    | "c = hexDigitUpper ((of_char b :: nat) div 16)" | "c = hexDigitUpper ((of_char b :: nat) mod 16)"
    using assms by (auto simp: urlencodeByte_def split: if_splits)
  then show ?thesis
  proof cases
    case 1
    then show ?thesis by (auto simp: isUrlSafe_def Let_def)
  next
    case 2
    then show ?thesis by simp
  next
    case 3
    then show ?thesis by simp
  next
    case 4
    then show ?thesis using of_char_hexDigitUpper[OF d(1)] by (auto split: if_splits)
  next
    case 5
    then show ?thesis using of_char_hexDigitUpper[OF d(2)] by (auto split: if_splits)
  qed
qed

lemma urlencode_plain:
  assumes "c \<in> set (urlencode s)"
  shows "c \<noteq> CHR ''&'' \<and> c \<noteq> CHR ''=''"
proof -
  obtain b where "c \<in> set (urlencodeByte b)"
    using assms by (auto simp: urlencode_def urlencodeChar_def)
  from urlencodeByte_plain[OF this] show ?thesis by auto
qed

lemma decode_urlencode_all: "percentDecode True (urlencode s) = Some s"
  using decode_urlencode[of True s "[]"] by simp

lemma decode_urlencode_plain: "CHR 0x20 \<notin> set s \<Longrightarrow> percentDecode False (urlencode s) = Some s"
  using decode_urlencode[of False s "[]"] by simp

lemma splitPair_encodePair: "splitPair (encodePair (k, v)) = (urlencode k, urlencode v)"
proof -
  have "\<forall>c \<in> set (urlencode k). c \<noteq> CHR ''=''" using urlencode_plain by blast
  then show ?thesis
    by (simp add: splitPair_def encodePair_def takeWhile_append2 dropWhile_append2)
qed

lemma decodePair_encodePair:
  assumes "form \<or> (CHR 0x20 \<notin> set k \<and> CHR 0x20 \<notin> set v)"
  shows "decodePair form (encodePair (k, v)) = Some (k, v)"
proof -
  have "percentDecode form (urlencode k) = Some k" "percentDecode form (urlencode v) = Some v"
    using assms decode_urlencode[of form k "[]"] decode_urlencode[of form v "[]"] by auto
  then show ?thesis by (simp add: decodePair_def splitPair_encodePair)
qed

lemma encodePair_no_amp: "CHR ''&'' \<notin> set (encodePair kv)"
  using urlencode_plain by (auto simp: encodePair_def)

lemma encodePair_nonempty: "encodePair kv \<noteq> []"
  by (simp add: encodePair_def)

lemma joinWith_nonempty: "x \<noteq> [] \<Longrightarrow> joinWith sep (x # xs) \<noteq> []"
  by (cases xs) auto

lemma those_map_Some:
  "(\<forall>x \<in> set xs. f (g x) = Some x) \<Longrightarrow> those (map f (map g xs)) = Some xs"
  by (induction xs) auto

lemma parseQueryWith_serialize:
  assumes "form \<or> (\<forall>(k, v) \<in> set pairs. CHR 0x20 \<notin> set k \<and> CHR 0x20 \<notin> set v)"
  shows "parseQueryWith form
           (let query = serializeUrlencoded pairs in if query \<noteq> [] then ''?'' @ query else [])
         = Some pairs"
proof (cases pairs)
  case Nil
  then show ?thesis by (simp add: serializeUrlencoded_def parseQueryWith_def)
next
  case (Cons p ps)
  let ?q = "joinWith ''&'' (map encodePair pairs)"
  have ne: "?q \<noteq> []"
    unfolding Cons using joinWith_nonempty[OF encodePair_nonempty] by simp
  have split: "splitOn CHR ''&'' ?q = map encodePair pairs"
    unfolding Cons using splitOn_joinWith[of "encodePair p" "map encodePair ps" "CHR ''&''"]
      encodePair_no_amp by auto
  have dec: "\<forall>x \<in> set pairs. decodePair form (encodePair x) = Some x"
    using assms decodePair_encodePair by (cases form) auto
  have "those (map (decodePair form) (map encodePair pairs)) = Some pairs"
    using dec by (rule those_map_Some)
  then show ?thesis
    using ne split by (simp add: serializeUrlencoded_def parseQueryWith_def Let_def)
qed

lemma parseBackForm_buildQueryString:
  "parseBackForm (buildQueryString params) = Some (queryParams params)"
  unfolding parseBackForm_def buildQueryString_def by (rule parseQueryWith_serialize) simp


section \<open>JSON.parse inverts JSON.stringify\<close>

declare showNat.simps [simp del]

lemma of_char_digitChar: "d < 10 \<Longrightarrow> (of_char (digitChar d) :: nat) = 48 + d"
  by (simp add: digitChar_def)

lemma isDigit_digitChar: "d < 10 \<Longrightarrow> isDigit (digitChar d)"
  by (simp add: isDigit_def of_char_digitChar)

lemma showNat_nonempty: "showNat n \<noteq> []"
  by (subst showNat.simps) simp

lemma showNat_digits: "c \<in> set (showNat n) \<Longrightarrow> isDigit c"
proof (induction n arbitrary: c rule: showNat.induct)
  case (1 n)
  show ?case
  proof (cases "n < 10")
    case True
    with "1.prems" show ?thesis
      by (subst (asm) showNat.simps) (simp add: isDigit_digitChar)
  next
    case False
    with "1.prems" have "c \<in> set (showNat (n div 10)) \<or> c = digitChar (n mod 10)"
      by (subst (asm) showNat.simps) auto
    then show ?thesis
      using "1.IH"[OF False] isDigit_digitChar[of "n mod 10"] by auto
  qed
qed

lemma readNat_snoc: "readNat (ds @ [d]) = 10 * readNat ds + ((of_char d :: nat) - 48)"
  by (simp add: readNat_def)

lemma readNat_showNat: "readNat (showNat n) = n"
proof (induction n rule: showNat.induct)
  case (1 n)
  show ?case
  proof (cases "n < 10")
    case True
    then show ?thesis
      by (subst showNat.simps) (simp add: readNat_def of_char_digitChar)
  next
    case False
    have "readNat (showNat n) = readNat (showNat (n div 10) @ [digitChar (n mod 10)])"
      using False by (subst showNat.simps) simp
    also have "\<dots> = 10 * (n div 10) + n mod 10"
      using "1.IH"[OF False] by (simp add: readNat_snoc of_char_digitChar)
    finally show ?thesis by simp
  qed
qed

lemma showNat_leading:
  "hd (showNat n) = CHR ''0'' \<Longrightarrow> length (showNat n) = 1"
proof (induction n rule: showNat.induct)
  case (1 n)
  show ?case
  proof (cases "n < 10")
    case True
    then show ?thesis by (subst showNat.simps) simp
  next
    case False
    then have split: "showNat n = showNat (n div 10) @ [digitChar (n mod 10)]"
      by (subst showNat.simps) simp
    have "hd (showNat (n div 10)) = CHR ''0''"
      using "1.prems" showNat_nonempty[of "n div 10"] by (simp add: split)
    then have one: "length (showNat (n div 10)) = 1" using "1.IH"[OF False] by simp
    have small: "n div 10 < 10"
    proof (rule ccontr)
      assume "\<not> n div 10 < 10"
      then have "showNat (n div 10) = showNat (n div 10 div 10) @ [digitChar (n div 10 mod 10)]"
        by (subst showNat.simps) simp
      then show False using one showNat_nonempty[of "n div 10 div 10"] by (cases "showNat (n div 10 div 10)") auto
    qed
    then have "showNat (n div 10) = [digitChar (n div 10)]" by (subst showNat.simps) simp
    with \<open>hd (showNat (n div 10)) = CHR ''0''\<close> have "digitChar (n div 10) = CHR ''0''" by simp
    then have "(of_char (digitChar (n div 10)) :: nat) = 48" by simp
    then have "n div 10 = 0" using small by (simp add: of_char_digitChar)
    then show ?thesis using False by simp
  qed
qed

lemma parseDigits_showNat:
  assumes "numberEnd rest"
  shows "parseDigits (showNat n @ rest) = Some (n, rest)"
proof -
  have nd: "rest = [] \<or> \<not> isDigit (hd rest)"
    using assms by (auto simp: numberEnd_def split: list.splits)
  have tw: "takeWhile isDigit (showNat n @ rest) = showNat n"
    using nd showNat_digits by (cases rest) (auto simp: takeWhile_append2)
  have dw: "dropWhile isDigit (showNat n @ rest) = rest"
    using nd showNat_digits by (cases rest) (auto simp: dropWhile_append2)
  have lead: "\<not> (hd (showNat n) = CHR ''0'' \<and> length (showNat n) > 1)"
    using showNat_leading[of n] by auto
  show ?thesis
    using assms lead showNat_nonempty[of n]
    by (auto simp: parseDigits_def tw dw Let_def readNat_showNat numberEnd_def split: list.splits)
qed

lemma showNat_hd_digit: "isDigit (hd (showNat n))"
  using showNat_digits[of "hd (showNat n)" n] showNat_nonempty[of n] by simp

lemma isDigit_not_minus: "isDigit c \<Longrightarrow> c \<noteq> CHR ''-''"
  by (auto simp: isDigit_def)

lemma parseNumber_showInt:
  assumes "numberEnd rest"
  shows "parseNumber (showInt i @ rest) = Some (JNum i, rest)"
proof (cases "i < 0")
  case True
  then show ?thesis
    by (simp add: parseNumber_def showInt_def parseDigits_showNat[OF assms])
next
  case False
  obtain c cs where s: "showNat (nat i) = c # cs"
    using showNat_nonempty[of "nat i"] by (cases "showNat (nat i)") auto
  have "isDigit c" using showNat_hd_digit[of "nat i"] by (simp add: s)
  then have "c \<noteq> CHR ''-''" by (rule isDigit_not_minus)
  then have "parseNumber (showNat (nat i) @ rest)
             = map_option (\<lambda>(n, r). (JNum (int n), r)) (parseDigits (showNat (nat i) @ rest))"
    by (simp add: parseNumber_def s)
  then show ?thesis using False by (simp add: showInt_def parseDigits_showNat[OF assms])
qed

lemma hexVal_lower: "d < 16 \<Longrightarrow> hexVal (hexDigitLower d) = Some d"
  by (auto simp: hexVal_def hexDigitLower_def Let_def)

lemma hexByte_lower:
  "n < 256 \<Longrightarrow> hexByte (hexDigitLower (n div 16)) (hexDigitLower (n mod 16)) = Some n"
  by (simp add: hexByte_def hexVal_lower less_mult_imp_div_less)

lemma hex4_control:
  "n < 256 \<Longrightarrow> hex4 CHR ''0'' CHR ''0'' (hexDigitLower (n div 16)) (hexDigitLower (n mod 16)) = Some n"
  by (simp add: hex4_def hexByte_lower) (simp add: hexByte_def hexVal_def)

lemma parseString_quoteChar:
  "parseString (quoteChar c @ t) = map_option (\<lambda>(s, r). (c # s, r)) (parseString t)"
proof -
  consider (q) "c = CHR 0x22" | (bs) "c = CHR 0x5C" | (b) "c = CHR 0x08" | (f) "c = CHR 0x0C"
    | (n) "c = CHR 0x0A" | (r) "c = CHR 0x0D" | (t) "c = CHR 0x09"
    | (ctl) "c \<notin> {CHR 0x22, CHR 0x5C, CHR 0x08, CHR 0x0C, CHR 0x0A, CHR 0x0D, CHR 0x09}"
            "(of_char c :: nat) < 32"
    | (plain) "c \<notin> {CHR 0x22, CHR 0x5C, CHR 0x08, CHR 0x0C, CHR 0x0A, CHR 0x0D, CHR 0x09}"
            "\<not> (of_char c :: nat) < 32"
    by blast
  then show ?thesis
  proof cases
    case ctl
    have q: "quoteChar c = [CHR 0x5C, CHR ''u'', CHR ''0'', CHR ''0'',
               hexDigitLower ((of_char c :: nat) div 16), hexDigitLower ((of_char c :: nat) mod 16)]"
      using ctl by (simp add: quoteChar_def)
    have h: "hex4 CHR ''0'' CHR ''0'' (hexDigitLower ((of_char c :: nat) div 16))
               (hexDigitLower ((of_char c :: nat) mod 16)) = Some (of_char c)"
      by (rule hex4_control) (rule of_char_lt_256)
    show ?thesis unfolding q using h of_char_lt_256[of c] by simp
  next
    case plain
    then show ?thesis by (simp add: quoteChar_def)
  qed (simp_all add: quoteChar_def unescapeChar_def)
qed

lemma parseString_quoted:
  "parseString (concat (map quoteChar s) @ CHR 0x22 # rest) = Some (s, rest)"
  by (induction s) (simp_all add: parseString_quoteChar del: parseString.simps, simp)

lemma parseString_quoteJSONString:
  "quoteJSONString s @ rest = CHR 0x22 # concat (map quoteChar s) @ CHR 0x22 # rest"
  by (simp add: quoteJSONString_def)

lemma skipWs_plain: "\<not> isJsonWhiteSpace c \<Longrightarrow> skipWs (c # s) = c # s"
  by (simp add: skipWs_def)

lemma ser_JArr: "xs \<noteq> [] \<Longrightarrow> ser (JArr xs) = ''['' @ joinWith '','' (map ser xs) @ '']''"
  by simp

lemma ser_JObj:
  "kvs \<noteq> [] \<Longrightarrow>
   ser (JObj kvs) = ''{'' @ joinWith '','' (map (\<lambda>(k, v). quoteJSONString k @ '':'' @ ser v) kvs) @ ''}''"
  by simp

lemma parseValue_JNull:
  "parseValue (Suc f) (ser JNull @ rest) = Some (JNull, rest)"
  by (simp add: skipWs_def isJsonWhiteSpace_def)

lemma parseValue_JBool:
  "parseValue (Suc f) (ser (JBool b) @ rest) = Some (JBool b, rest)"
  by (cases b) (simp_all add: skipWs_def isJsonWhiteSpace_def)

lemma parseValue_JStr:
  "parseValue (Suc f) (ser (JStr s) @ rest) = Some (JStr s, rest)"
  by (simp add: skipWs_def isJsonWhiteSpace_def parseString_quoteJSONString parseString_quoted
           del: parseString.simps)

lemma isDigit_dispatch:
  assumes "isDigit c \<or> c = CHR ''-''"
  shows "\<not> isJsonWhiteSpace c \<and> c \<noteq> CHR ''n'' \<and> c \<noteq> CHR ''t'' \<and> c \<noteq> CHR ''f'' \<and> c \<noteq> CHR 0x22
         \<and> c \<noteq> CHR ''['' \<and> c \<noteq> CHR ''{''"
  using assms by (auto simp: isDigit_def isJsonWhiteSpace_def)

lemma showInt_head: "\<exists>c cs. showInt i = c # cs \<and> (isDigit c \<or> c = CHR ''-'')"
proof (cases "i < 0")
  case True
  then show ?thesis by (simp add: showInt_def)
next
  case False
  obtain c cs where s: "showNat (nat i) = c # cs"
    using showNat_nonempty[of "nat i"] by (cases "showNat (nat i)") auto
  have "isDigit c" using showNat_hd_digit[of "nat i"] by (simp add: s)
  then show ?thesis using False s by (simp add: showInt_def)
qed

lemma parseValue_JNum:
  assumes "numberEnd rest"
  shows "parseValue (Suc f) (ser (JNum i) @ rest) = Some (JNum i, rest)"
proof -
  obtain c cs where s: "showInt i = c # cs" and c: "isDigit c \<or> c = CHR ''-''"
    using showInt_head by blast
  have "parseValue (Suc f) (c # cs @ rest) = parseNumber (c # cs @ rest)"
    using isDigit_dispatch[OF c] c by (auto simp: skipWs_plain)
  then show ?thesis
    using parseNumber_showInt[OF assms, of i] by (simp add: s)
qed

lemma ser_head:
  "\<exists>c t. ser v = c # t \<and> \<not> isJsonWhiteSpace c \<and> c \<noteq> CHR '']'' \<and> c \<noteq> CHR ''}''"
proof (cases v)
  case (JNum i)
  obtain c cs where "showInt i = c # cs" "isDigit c \<or> c = CHR ''-''"
    using showInt_head by blast
  then show ?thesis using JNum by (auto simp: isDigit_def isJsonWhiteSpace_def)
next
  case (JStr s)
  then show ?thesis by (simp add: quoteJSONString_def isJsonWhiteSpace_def)
next
  case (JBool b)
  then show ?thesis by (cases b) (simp_all add: isJsonWhiteSpace_def)
next
  case (JArr xs)
  then show ?thesis by (cases "xs = []") (simp_all add: isJsonWhiteSpace_def)
next
  case (JObj kvs)
  then show ?thesis by (cases "kvs = []") (simp_all add: isJsonWhiteSpace_def)
qed (simp add: isJsonWhiteSpace_def)

lemma numberEnd_sep [simp]:
  "numberEnd (CHR '','' # r)" "numberEnd (CHR '']'' # r)" "numberEnd (CHR ''}'' # r)"
  by (simp_all add: numberEnd_def isDigit_def)

lemma skipWs_sep [simp]:
  "skipWs (CHR '','' # r) = CHR '','' # r" "skipWs (CHR '']'' # r) = CHR '']'' # r"
  "skipWs (CHR ''}'' # r) = CHR ''}'' # r" "skipWs (CHR '':'' # r) = CHR '':'' # r"
  "skipWs (CHR 0x22 # r) = CHR 0x22 # r" "skipWs (CHR ''['' # r) = CHR ''['' # r"
  "skipWs (CHR ''{'' # r) = CHR ''{'' # r"
  by (simp_all add: skipWs_def isJsonWhiteSpace_def)

lemma parseElements_ser:
  assumes "\<And>x fuel rest. x \<in> set (x0 # xs) \<Longrightarrow> length (ser x) < fuel \<Longrightarrow> numberEnd rest
             \<Longrightarrow> parseValue fuel (ser x @ rest) = Some (x, rest)"
    and "Suc (length (joinWith '','' (map ser (x0 # xs)))) < fuel"
  shows "parseElements fuel (joinWith '','' (map ser (x0 # xs)) @ CHR '']'' # rest)
         = Some (x0 # xs, rest)"
  using assms
proof (induction xs arbitrary: x0 fuel)
  case Nil
  obtain f where f: "fuel = Suc f" using Nil.prems(2) by (cases fuel) auto
  have "parseValue f (ser x0 @ CHR '']'' # rest) = Some (x0, CHR '']'' # rest)"
    using Nil.prems(2) by (intro Nil.prems(1)) (auto simp: f)
  then show ?case by (simp add: f)
next
  case (Cons y ys)
  obtain f where f: "fuel = Suc f" using Cons.prems(2) by (cases fuel) auto
  let ?J = "joinWith '','' (map ser (y # ys))"
  have j: "joinWith '','' (map ser (x0 # y # ys)) = ser x0 @ '','' @ ?J" by simp
  have len: "length (ser x0) < f" "Suc (length ?J) < f"
    using Cons.prems(2) unfolding j f by simp_all
  have v: "parseValue f (ser x0 @ CHR '','' # ?J @ CHR '']'' # rest)
           = Some (x0, CHR '','' # ?J @ CHR '']'' # rest)"
    using len(1) by (intro Cons.prems(1)) auto
  have r: "parseElements f (?J @ CHR '']'' # rest) = Some (y # ys, rest)"
    using len(2) Cons.prems(1) by (intro Cons.IH) auto
  show ?case unfolding j f using v r by simp
qed

lemma parseMembers_head:
  assumes "length (ser v) < f" and "numberEnd tail"
    and "parseValue f (ser v @ tail) = Some (v, tail)"
  shows "parseMembers (Suc f) (serMember (k, v) @ tail) =
           (case skipWs tail of
              [] \<Rightarrow> None
            | d # r' \<Rightarrow>
                if d = CHR '','' then map_option (\<lambda>(kvs, t). ((k, v) # kvs, t)) (parseMembers f r')
                else if d = CHR ''}'' then Some ([(k, v)], r')
                else None)"
proof -
  have "serMember (k, v) @ tail
        = CHR 0x22 # concat (map quoteChar k) @ CHR 0x22 # (CHR '':'' # ser v @ tail)"
    by (simp add: quoteJSONString_def)
  moreover have "parseString (concat (map quoteChar k) @ CHR 0x22 # (CHR '':'' # ser v @ tail))
                 = Some (k, CHR '':'' # ser v @ tail)"
    by (rule parseString_quoted)
  ultimately show ?thesis using assms(3) by (simp del: parseString.simps)
qed

lemma parseMembers_ser:
  assumes "\<And>k v fuel rest. (k, v) \<in> set (kv0 # kvs) \<Longrightarrow> length (ser v) < fuel \<Longrightarrow> numberEnd rest
             \<Longrightarrow> parseValue fuel (ser v @ rest) = Some (v, rest)"
    and "Suc (length (joinWith '','' (map serMember (kv0 # kvs)))) < fuel"
  shows "parseMembers fuel (joinWith '','' (map serMember (kv0 # kvs)) @ CHR ''}'' # rest)
         = Some (kv0 # kvs, rest)"
  using assms
proof (induction kvs arbitrary: kv0 fuel)
  case Nil
  obtain k v where kv: "kv0 = (k, v)" by (cases kv0)
  obtain f where f: "fuel = Suc f" using Nil.prems(2) by (cases fuel) auto
  have len: "length (ser v) < f" using Nil.prems(2) by (simp add: f kv)
  have v: "parseValue f (ser v @ CHR ''}'' # rest) = Some (v, CHR ''}'' # rest)"
    using len by (intro Nil.prems(1)[of k]) (auto simp: kv)
  show ?case
    using parseMembers_head[OF len _ v, of k] by (simp add: f kv)
next
  case (Cons y ys)
  obtain k v where kv: "kv0 = (k, v)" by (cases kv0)
  obtain f where f: "fuel = Suc f" using Cons.prems(2) by (cases fuel) auto
  let ?J = "joinWith '','' (map serMember (y # ys))"
  have j: "joinWith '','' (map serMember (kv0 # y # ys)) = serMember (k, v) @ '','' @ ?J"
    by (simp add: kv)
  have len: "length (ser v) < f" "Suc (length ?J) < f"
    using Cons.prems(2) unfolding j f by simp_all
  have v: "parseValue f (ser v @ CHR '','' # ?J @ CHR ''}'' # rest)
           = Some (v, CHR '','' # ?J @ CHR ''}'' # rest)"
    using len(1) by (intro Cons.prems(1)[of k]) (auto simp: kv)
  have r: "parseMembers f (?J @ CHR ''}'' # rest) = Some (y # ys, rest)"
    using len(2) Cons.prems(1) by (intro Cons.IH) auto
  have "parseMembers (Suc f) (serMember (k, v) @ CHR '','' # ?J @ CHR ''}'' # rest)
        = Some ((k, v) # y # ys, rest)"
    using parseMembers_head[OF len(1) _ v, of k] r by simp
  then show ?case unfolding j f kv by simp
qed

lemma parseValue_ser:
  "length (ser v) < fuel \<Longrightarrow> numberEnd rest \<Longrightarrow> parseValue fuel (ser v @ rest) = Some (v, rest)"
proof (induction v arbitrary: fuel rest)
  case JNull
  then obtain f where "fuel = Suc f" by (cases fuel) auto
  then show ?case by (simp only: parseValue_JNull)
next
  case (JBool b)
  then obtain f where "fuel = Suc f" by (cases fuel) auto
  then show ?case by (simp only: parseValue_JBool)
next
  case (JNum i)
  then obtain f where "fuel = Suc f" by (cases fuel) auto
  then show ?case using JNum.prems(2) by (simp only: parseValue_JNum)
next
  case (JStr s)
  then obtain f where "fuel = Suc f" by (cases fuel) auto
  then show ?case by (simp only: parseValue_JStr)
next
  case (JArr xs)
  obtain f where f: "fuel = Suc f" using JArr.prems(1) by (cases fuel) auto
  show ?case
  proof (cases xs)
    case Nil
    then show ?thesis by (simp add: f)
  next
    case (Cons x0 xs')
    define J where "J = joinWith '','' (map ser (x0 # xs'))"
    have s: "ser (JArr xs) = CHR ''['' # J @ '']''" by (simp add: Cons J_def)
    obtain c t where h: "ser x0 = c # t" "\<not> isJsonWhiteSpace c" "c \<noteq> CHR '']''"
      using ser_head[of x0] by blast
    have "\<exists>t'. J @ CHR '']'' # rest = c # t'"
      using h(1) unfolding J_def by (cases xs') auto
    then obtain t' where t': "J @ CHR '']'' # rest = c # t'" by blast
    have len: "Suc (length J) < f" using JArr.prems(1) unfolding s f by simp
    have el: "parseElements f (J @ CHR '']'' # rest) = Some (x0 # xs', rest)"
      unfolding J_def using len JArr.IH by (intro parseElements_ser) (auto simp: Cons J_def)
    have "parseValue (Suc f) (CHR ''['' # J @ CHR '']'' # rest) = Some (JArr xs, rest)"
      using el h(2,3) by (simp add: t' skipWs_plain Cons)
    then show ?thesis by (simp add: s f del: serializeJSON.simps)
  qed
next
  case (JObj kvs)
  obtain f where f: "fuel = Suc f" using JObj.prems(1) by (cases fuel) auto
  show ?case
  proof (cases kvs)
    case Nil
    then show ?thesis by (simp add: f)
  next
    case (Cons kv0 kvs')
    define J where "J = joinWith '','' (map serMember (kv0 # kvs'))"
    have s: "ser (JObj kvs) = CHR ''{'' # J @ ''}''" by (simp add: Cons J_def)
    obtain k0 v0 where kv0: "kv0 = (k0, v0)" by (cases kv0)
    have "\<exists>t'. J @ CHR ''}'' # rest = CHR 0x22 # t'"
      unfolding J_def by (cases kvs') (auto simp: kv0 quoteJSONString_def)
    then obtain t' where t': "J @ CHR ''}'' # rest = CHR 0x22 # t'" by blast
    have len: "Suc (length J) < f" using JObj.prems(1) unfolding s f by simp
    have ih: "\<And>k v fuel rest. (k, v) \<in> set (kv0 # kvs') \<Longrightarrow> length (ser v) < fuel
                \<Longrightarrow> numberEnd rest \<Longrightarrow> parseValue fuel (ser v @ rest) = Some (v, rest)"
    proof -
      fix k v fuel rest
      assume "(k, v) \<in> set (kv0 # kvs')" "length (ser v) < fuel" "numberEnd rest"
      then show "parseValue fuel (ser v @ rest) = Some (v, rest)"
        using JObj.IH[of "(k, v)" v fuel rest] by (simp add: Cons)
    qed
    have el: "parseMembers f (J @ CHR ''}'' # rest) = Some (kv0 # kvs', rest)"
      unfolding J_def using len ih by (intro parseMembers_ser) (auto simp: J_def)
    have "parseValue (Suc f) (CHR ''{'' # J @ CHR ''}'' # rest) = Some (JObj kvs, rest)"
      using el by (simp add: t' Cons)
    then show ?thesis by (simp add: s f del: serializeJSON.simps)
  qed
qed

lemma JSON_parse_stringify: "JSON_parse (JSON_stringify v) = Some v"
proof -
  have "parseValue (Suc (length (ser v))) (ser v @ []) = Some (v, [])"
    by (rule parseValue_ser) (simp_all add: numberEnd_def)
  then show ?thesis by (simp add: JSON_parse_def JSON_stringify_def skipWs_def)
qed


section \<open>Properties of the toolset selection\<close>

lemma dropWhile_rev_empty:
  assumes "dropWhile P (rev (dropWhile P xs)) = []"
  shows "\<forall>x \<in> set xs. P x"
proof -
  have all: "\<forall>x \<in> set (dropWhile P xs). P x"
    using assms by (auto simp: dropWhile_eq_Nil_conv)
  have "dropWhile P xs = []"
  proof (cases "dropWhile P xs")
    case Nil
    then show ?thesis .
  next
    case (Cons y ys)
    then have "\<not> P y" using hd_dropWhile[of P xs] by auto
    moreover have "P y" using all Cons by simp
    ultimately show ?thesis by simp
  qed
  then show ?thesis by (simp add: dropWhile_eq_Nil_conv)
qed

lemma trim_empty: "trim v = [] \<Longrightarrow> \<forall>c \<in> set v. isWhiteSpace c"
  unfolding trim_def by (rule dropWhile_rev_empty) simp

lemma requestedToolsets_blank:
  assumes "trim v = []"
  shows "requestedToolsets v = []"
proof -
  have "\<forall>c \<in> set v. isWhiteSpace c" using assms by (rule trim_empty)
  moreover have "\<not> isWhiteSpace (CHR '','')" by (simp add: isWhiteSpace_def)
  ultimately have "CHR '','' \<notin> set v" by blast
  then have "splitOn CHR '','' v = [v]" by (rule splitOn_no_sep)
  then show ?thesis using assms by (simp add: requestedToolsets_def toLowerCase_def)
qed





text \<open>
  The test file of a later revision, index.test.ts, carries its own copy of the
  function, with a larger vocabulary that has \<open>all\<close>; that copy does collapse to \<open>all\<close>.
\<close>

lemma parseToolsets_test_result:
  "parseToolsets_test (Some v) =
     (let filtered = filter (\<lambda>t. t \<in> set validToolsets_test) (requestedToolsets v)
      in if ''all'' \<in> set filtered then [''all'']
         else if filtered = [] then [''default''] else filtered)"
proof (cases "v = [] \<or> trim v = []")
  case True
  then have "trim v = []" by (auto simp: trim_def)
  then show ?thesis using True by (simp add: parseToolsets_test_def requestedToolsets_blank)
next
  case False
  then show ?thesis by (simp add: parseToolsets_test_def Let_def)
qed


lemma filterToolsByToolsets_test_iff:
  "tool \<in> set (filterToolsByToolsets_test tools active) \<longleftrightarrow>
     tool \<in> set tools
     \<and> (''all'' \<in> set active \<or> (\<exists>ts. toolsets tool = Some ts \<and> set ts \<inter> set active \<noteq> {}))"
  by (auto simp: filterToolsByToolsets_test_def toolInToolsets_def list_ex_iff split: option.splits)




section \<open>Properties of request\<close>

lemma includesStr_prefix: "includesStr (t @ s) t"
proof (cases "t @ s")
  case Nil
  then show ?thesis by simp
next
  case (Cons a l)
  have "take (length t) (t @ s) = t" by simp
  then show ?thesis unfolding Cons by simp
qed

lemma requestCatch_wrapped:
  "requestCatch (newError (''Directus API error: '' @ msg)) = newError (''Directus API error: '' @ msg)"
proof -
  have "includesStr (''Directus API error:'' @ (CHR '' '' # msg)) ''Directus API error:''"
    by (rule includesStr_prefix)
  then show ?thesis by (simp add: newError_def)
qed

lemma requestCatch_Error:
  "requestCatch (ThrownError n msg ps) =
     (if includesStr msg ''Directus API error:'' then ThrownError n msg ps
      else wrapError (ThrownError n msg ps))"
  by simp

text \<open>
  Claim C3.  When the transport answers with a response that is not \<open>ok\<close>, \<open>request\<close>
  rejects with an \<open>Error\<close> whose message is \<open>Directus API error: \<close> followed by the first
  truthy value (as \<open>||\<close> chooses) of \<open>errors[0].message\<close> and \<open>message\<close> of the error body,
  and otherwise by the status text; a body that cannot be read counts as the empty
  object.  The events show one call of \<open>fetch\<close> and one read of the body: nothing is
  retried.
\<close>

theorem request_not_ok:
  assumes "fetch (requestUrl this endpoint) (requestOptions this m data) = Inr response"
    and "\<not> ok response"
  shows "request fetch this m endpoint data =
     ([Fetch (requestUrl this endpoint) (requestOptions this m data), ReadJson],
      Inl (newError (''Directus API error: '' @
         (let errorData = (case jsonBody response of Inl e \<Rightarrow> JObj [] | Inr d \<Rightarrow> d);
              remoteError = optChain (optChain (optChain (Some errorData) (jsonProp ''errors''))
                              jsonIndex0) (jsonProp ''message'');
              remoteMessage = optChain (Some errorData) (jsonProp ''message'')
          in if truthyOpt remoteError then toStrOpt remoteError
             else if truthyOpt remoteMessage then toStrOpt remoteMessage
             else statusText response))))"
  using assms
  by (simp add: request_def Let_def requestCatch_wrapped apiErrorMessage_def jsOr_def toStrOpt_def
           del: requestCatch.simps append.simps)

theorem request_not_ok_witness:
  "request fetchNotFound exampleClient ''GET'' ''/items/articles'' None =
     ([Fetch ''https://directus.example.com/items/articles''
         \<lparr>reqMethod = ''GET'',
          headers = [(''Content-Type'', ''application/json''), (''Authorization'', ''Bearer test-token'')],
          body = None\<rparr>, ReadJson],
      Inl (newError ''Directus API error: Not found''))"
  using request_not_ok [of fetchNotFound exampleClient "''/items/articles''" "''GET''" None
      "\<lparr>ok = False, status = 404, statusText = ''Not Found'',
        jsonBody = Inr (JObj [(''errors'', JArr [JObj [(''message'', JStr ''Not found'')]])])\<rparr>"]
  by (simp add: fetchNotFound_def requestUrl_def requestOptions_def requestBody_def exampleClient_def
        optChain_def truthyOpt_def toStrOpt_def)

text \<open>
  Claim C5.  A response with status 204 resolves to the object \<open>{success: true}\<close>; the
  only event is the call of \<open>fetch\<close>, so the body is not read, whatever reading it would
  give.  The \<open>ok\<close> flag of a response is, by the Fetch standard, the status being
  in the range 200 to 299.
\<close>

theorem request_no_content:
  assumes "fetch (requestUrl this endpoint) (requestOptions this m data) = Inr response"
    and "ok response = (200 \<le> status response \<and> status response \<le> 299)"
    and "status response = 204"
  shows "request fetch this m endpoint data =
           ([Fetch (requestUrl this endpoint) (requestOptions this m data)],
            Inr (JObj [(''success'', JBool True)]))"
  using assms by (simp add: request_def Let_def)

theorem request_no_content_witness:
  "request fetchNoContent exampleClient ''DELETE'' ''/items/articles/1'' None =
     ([Fetch ''https://directus.example.com/items/articles/1''
         \<lparr>reqMethod = ''DELETE'',
          headers = [(''Content-Type'', ''application/json''), (''Authorization'', ''Bearer test-token'')],
          body = None\<rparr>],
      Inr (JObj [(''success'', JBool True)]))"
  using request_no_content [of fetchNoContent exampleClient "''/items/articles/1''" "''DELETE''" None
      "\<lparr>ok = True, status = 204, statusText = ''No Content'', jsonBody = Inl (newError ''No content'')\<rparr>"]
  by (simp add: fetchNoContent_def requestUrl_def requestOptions_def requestBody_def exampleClient_def)

text \<open>
  A transport failure that is an \<open>Error\<close> with a non-empty message and no \<open>errors\<close>
  property is rethrown unchanged when the message already holds the marker, and wrapped
  otherwise.
\<close>

lemma request_transport_failure_error:
  assumes "fetch (requestUrl this endpoint) (requestOptions this m data) = Inl (ThrownError n msg [])"
    and "msg \<noteq> []"
  shows "request fetch this m endpoint data =
     ([Fetch (requestUrl this endpoint) (requestOptions this m data)],
      Inl (if includesStr msg ''Directus API error:'' then ThrownError n msg []
           else newError (''Directus API error: '' @ msg)))"
  using assms
  by (simp add: request_def Let_def wrapError_def jsOr_def optChain_def truthyOpt_def toStrOpt_def)

text \<open>The network failure of the test suite.\<close>

lemma request_network_error:
  "snd (request fetchNetworkError exampleClient ''GET'' ''/test'' None)
     = Inl (newError ''Directus API error: Network error'')"
proof -
  have "snd (request fetchNetworkError exampleClient ''GET'' ''/test'' None)
        = Inl (if includesStr ''Network error'' ''Directus API error:'' then newError ''Network error''
               else newError (''Directus API error: '' @ ''Network error''))"
    using request_transport_failure_error
      [of fetchNetworkError exampleClient "''/test''" "''GET''" None "''Error''" "''Network error''"]
    by (simp add: fetchNetworkError_def newError_def)
  moreover have "\<not> includesStr ''Network error'' ''Directus API error:''" by code_simp
  ultimately show ?thesis by simp
qed

text \<open>
  Claim C4.  The wrapping does not hold for every thrown value.  When the transport
  rejects with a string, the unguarded \<open>error.message.includes(...)\<close> of the \<open>catch\<close>
  block throws a \<open>TypeError\<close> itself, and that is what the caller receives: its message
  does not carry \<open>Directus API error:\<close>.
\<close>

theorem request_transport_failure_non_error:
  "request fetchThrowsString exampleClient ''GET'' ''/items/articles'' None =
     ([Fetch ''https://directus.example.com/items/articles''
         \<lparr>reqMethod = ''GET'',
          headers = [(''Content-Type'', ''application/json''), (''Authorization'', ''Bearer test-token'')],
          body = None\<rparr>],
      Inl (newTypeError (''Cannot read properties of undefined (reading '' @ [CHR 0x27]
                          @ ''includes'' @ [CHR 0x27] @ '')'')))"
  by (simp add: request_def fetchThrowsString_def requestUrl_def requestOptions_def requestBody_def
        exampleClient_def cannotRead_def)


section \<open>Properties of the constructor\<close>

text \<open>
  Claim C9, as the code has it.  The constructor builds the SDK client before it looks
  at the credentials.  With a URL that does not parse it throws the \<open>TypeError\<close>
  \<open>Invalid URL\<close>, whatever the credentials.  With a URL that parses, a credential being
  supplied when it is present and not empty (the code tests truthiness): without a
  token and without both email and password it throws the configuration error; with a
  token or with an email and password pair it returns a client.  In each throwing case
  \<open>createDirectusClient\<close> stops at the constructor with no network event.
\<close>

theorem newDirectusClient_credentials:
  "(\<not> parsesUrl (url cfg) \<longrightarrow>
      newDirectusClient parsesUrl cfg = Inl (newTypeError ''Invalid URL'')
      \<and> createDirectusClient parsesUrl login cfg = ([], Inl (newTypeError ''Invalid URL'')))
   \<and> (parsesUrl (url cfg) \<and> \<not> truthyStr (token cfg)
        \<and> \<not> (truthyStr (email cfg) \<and> truthyStr (password cfg)) \<longrightarrow>
      newDirectusClient parsesUrl cfg = Inl (newError
        ''Authentication configuration required: provide either token or email/password'')
      \<and> createDirectusClient parsesUrl login cfg = ([], Inl (newError
        ''Authentication configuration required: provide either token or email/password'')))
   \<and> (parsesUrl (url cfg)
        \<and> (truthyStr (token cfg) \<or> (truthyStr (email cfg) \<and> truthyStr (password cfg))) \<longrightarrow>
      (\<exists>c. newDirectusClient parsesUrl cfg = Inr c))"
proof (cases "parsesUrl (url cfg)")
  case False
  then have "newDirectusClient parsesUrl cfg = Inl (newTypeError ''Invalid URL'')"
    by (simp add: newDirectusClient_def initializeClient_def createDirectus_def)
  then show ?thesis using False by (simp add: createDirectusClient_def)
next
  case True
  then show ?thesis
    by (auto simp: newDirectusClient_def initializeClient_def createDirectus_def
          createDirectusClient_def truthyStr_def Let_def split: option.splits)
qed

theorem newDirectusClient_credentials_witness:
  "hasScheme (url noCredentials) \<and> hasScheme (url exampleConfig) \<and> \<not> hasScheme (url badUrlConfig)
   \<and> newDirectusClient hasScheme noCredentials
     = Inl (newError ''Authentication configuration required: provide either token or email/password'')
   \<and> newDirectusClient hasScheme emailOnly
     = Inl (newError ''Authentication configuration required: provide either token or email/password'')
   \<and> newDirectusClient hasScheme exampleConfig = Inr exampleClient
   \<and> isl (newDirectusClient hasScheme emailAndPassword) = False
   \<and> newDirectusClient hasScheme badUrlConfig = Inl (newTypeError ''Invalid URL'')"
proof -
  have u: "hasScheme ''https://directus.example.com''" "\<not> hasScheme ''not a url''"
    by code_simp+
  show ?thesis
    using newDirectusClient_credentials [of hasScheme noCredentials]
      newDirectusClient_credentials [of hasScheme emailOnly]
      newDirectusClient_credentials [of hasScheme exampleConfig]
      newDirectusClient_credentials [of hasScheme emailAndPassword]
      newDirectusClient_credentials [of hasScheme badUrlConfig] u
    by (auto simp: truthyStr_def exampleConfig_def exampleClient_def noCredentials_def
          emailOnly_def emailAndPassword_def badUrlConfig_def newDirectusClient_def
          initializeClient_def createDirectus_def removeTrailingSlash_def)
qed

text \<open>
  The claim C9 as it is worded fails on a URL that does not parse: with a static token
  the constructor still throws, and without credentials the error thrown is the
  \<open>TypeError\<close> of the SDK, not the configuration error.
\<close>

theorem newDirectusClient_invalid_url_counterexample:
  "truthyStr (token badUrlConfig)
   \<and> newDirectusClient hasScheme badUrlConfig = Inl (newTypeError ''Invalid URL'')
   \<and> newDirectusClient hasScheme badUrlNoCredentials = Inl (newTypeError ''Invalid URL'')
   \<and> newTypeError ''Invalid URL''
     \<noteq> newError ''Authentication configuration required: provide either token or email/password''"
proof -
  have u: "\<not> hasScheme ''not a url''" by code_simp
  show ?thesis
    using u
    by (simp add: badUrlConfig_def badUrlNoCredentials_def truthyStr_def newDirectusClient_def
          initializeClient_def createDirectus_def newTypeError_def newError_def)
qed


section \<open>Properties of the tool wrappers\<close>

text \<open>
  Claim C7.  The tool made by \<open>createTool\<close> keeps name, description, input schema and
  toolsets of its definition, and when the inner handler resolves to \<open>V\<close> its handler
  resolves to a single content entry of type \<open>text\<close> whose text is
  \<open>JSON.stringify(V, null, 2)\<close>.
\<close>

theorem createTool_wraps_result:
  "name (createTool cfg) = name cfg \<and> description (createTool cfg) = description cfg
   \<and> inputSchema (createTool cfg) = inputSchema cfg \<and> toolsets (createTool cfg) = toolsets cfg
   \<and> (\<forall>c args w V args' w'. handler cfg c args w = (Inr V, args', w') \<longrightarrow>
        handler (createTool cfg) c args w =
          (Inr \<lparr>content = [\<lparr>contentType = ''text'', contentText = JSON_stringify_2 V\<rparr>]\<rparr>,
           args', w'))"
proof -
  have run: "handler (createTool cfg) c args w =
      (case handler cfg c args w of
         (Inl e, args', w') \<Rightarrow> (Inl e, args', w')
       | (Inr result, args', w') \<Rightarrow>
           (Inr \<lparr>content = [\<lparr>contentType = ''text'',
                              contentText = JSON_stringify_2 result\<rparr>]\<rparr>, args', w'))" for c args w
    by (simp add: createTool_def)
  have passed: "name (createTool cfg) = name cfg" "description (createTool cfg) = description cfg"
    "inputSchema (createTool cfg) = inputSchema cfg" "toolsets (createTool cfg) = toolsets cfg"
    by (simp_all add: createTool_def)
  show ?thesis unfolding run using passed by simp
qed

theorem createTool_wraps_result_witness:
  "handler dataToolConfig () JNull [] = (Inr (Some (JObj [(''id'', JNum 1)])), JNull, [''handler''])
   \<and> handler (createTool dataToolConfig) () JNull []
       = (Inr \<lparr>content = [\<lparr>contentType = ''text'',
               contentText = Some (''{'' @ [CHR 0x0A] @ ''  '' @ [CHR 0x22] @ ''id'' @ [CHR 0x22]
                                   @ '': 1'' @ [CHR 0x0A] @ ''}'')\<rparr>]\<rparr>,
          JNull, [''handler''])
   \<and> name (createTool dataToolConfig) = ''get_item''
   \<and> toolsets (createTool dataToolConfig) = Some [''default'', ''content'']"
proof -
  have h: "handler dataToolConfig () JNull [] = (Inr (Some (JObj [(''id'', JNum 1)])), JNull, [''handler''])"
    by (simp add: dataToolConfig_def dataHandler_def)
  have s: "JSON_stringify_2 (Some (JObj [(''id'', JNum 1)]))
           = Some (''{'' @ [CHR 0x0A] @ ''  '' @ [CHR 0x22] @ ''id'' @ [CHR 0x22] @ '': 1'' @ [CHR 0x0A] @ ''}'')"
    by code_simp
  show ?thesis
    using createTool_wraps_result [of dataToolConfig] h s
    by (simp add: dataToolConfig_def)
qed

text \<open>
  Claim C8, as the code has it.  The tool made by \<open>createActionTool\<close> keeps name,
  description, input schema and toolsets.  When the inner handler resolves, the text of
  the single content entry is \<open>successMessage\<close> applied to the arguments object as the
  handler left it, evaluated in the state the handler left; these are the original
  arguments whenever the handler has not written to the object.  When the inner handler
  rejects, the same rejection comes out and the state is the one the handler left:
  \<open>successMessage\<close> has not run.
\<close>

theorem createActionTool_message_after_handler:
  "name (createActionTool cfg) = name cfg \<and> description (createActionTool cfg) = description cfg
   \<and> inputSchema (createActionTool cfg) = inputSchema cfg
   \<and> toolsets (createActionTool cfg) = toolsets cfg
   \<and> (\<forall>c args w u args' w'. handler cfg c args w = (Inr u, args', w') \<longrightarrow>
        handler (createActionTool cfg) c args w =
          (Inr \<lparr>content = [\<lparr>contentType = ''text'',
                             contentText = Some (fst (successMessage cfg args' w'))\<rparr>]\<rparr>,
           args', snd (successMessage cfg args' w')))
   \<and> (\<forall>c args w u w'. handler cfg c args w = (Inr u, args, w') \<longrightarrow>
        fst (handler (createActionTool cfg) c args w) =
          Inr \<lparr>content = [\<lparr>contentType = ''text'',
                            contentText = Some (fst (successMessage cfg args w'))\<rparr>]\<rparr>)
   \<and> (\<forall>c args w e args' w'. handler cfg c args w = (Inl e, args', w') \<longrightarrow>
        handler (createActionTool cfg) c args w = (Inl e, args', w'))"
proof -
  have run: "handler (createActionTool cfg) c args w =
      (case handler cfg c args w of
         (Inl e, args', w') \<Rightarrow> (Inl e, args', w')
       | (Inr u, args', w') \<Rightarrow>
           (Inr \<lparr>content = [\<lparr>contentType = ''text'',
                              contentText = Some (fst (successMessage cfg args' w'))\<rparr>]\<rparr>,
            args', snd (successMessage cfg args' w')))" for c args w
    by (simp add: createActionTool_def split: prod.splits sum.splits)
  have passed: "name (createActionTool cfg) = name cfg"
    "description (createActionTool cfg) = description cfg"
    "inputSchema (createActionTool cfg) = inputSchema cfg"
    "toolsets (createActionTool cfg) = toolsets cfg"
    by (simp_all add: createActionTool_def)
  show ?thesis unfolding run using passed by simp
qed

theorem createActionTool_message_after_handler_witness:
  "handler plainToolConfig () articlesArgs [] = (Inr (), articlesArgs, [''handler''])
   \<and> handler (createActionTool plainToolConfig) () articlesArgs []
     = (Inr \<lparr>content = [\<lparr>contentType = ''text'',
                           contentText = Some ''Collection Articles deleted''\<rparr>]\<rparr>,
        articlesArgs, [''handler'', ''successMessage''])
   \<and> handler actionToolConfig () articlesArgs []
     = (Inr (), JObj [(''collection'', JStr ''articles'')], [''handler''])
   \<and> handler (createActionTool actionToolConfig) () articlesArgs []
     = (Inr \<lparr>content = [\<lparr>contentType = ''text'',
                           contentText = Some ''Collection articles deleted''\<rparr>]\<rparr>,
        JObj [(''collection'', JStr ''articles'')], [''handler'', ''successMessage''])
   \<and> handler rejectingToolConfig () articlesArgs []
     = (Inl (newError ''Directus API error: Forbidden''), articlesArgs, [''handler''])
   \<and> handler (createActionTool rejectingToolConfig) () articlesArgs []
     = (Inl (newError ''Directus API error: Forbidden''), articlesArgs, [''handler''])"
proof -
  have h0: "handler plainToolConfig () articlesArgs [] = (Inr (), articlesArgs, [''handler''])"
    by (simp add: plainToolConfig_def plainHandler_def)
  have h1: "handler actionToolConfig () articlesArgs []
            = (Inr (), JObj [(''collection'', JStr ''articles'')], [''handler''])"
    by code_simp
  have h2: "handler rejectingToolConfig () articlesArgs []
            = (Inl (newError ''Directus API error: Forbidden''), articlesArgs, [''handler''])"
    by (simp add: rejectingToolConfig_def rejectingHandler_def)
  have m0: "successMessage plainToolConfig articlesArgs [''handler'']
           = (''Collection Articles deleted'', [''handler'', ''successMessage''])"
    by code_simp
  have m1: "successMessage actionToolConfig (JObj [(''collection'', JStr ''articles'')]) [''handler'']
           = (''Collection articles deleted'', [''handler'', ''successMessage''])"
    by code_simp
  show ?thesis
    using createActionTool_message_after_handler [of plainToolConfig]
      createActionTool_message_after_handler [of actionToolConfig]
      createActionTool_message_after_handler [of rejectingToolConfig] h0 h1 h2 m0 m1
    by simp
qed

text \<open>
  The claim C8 as it is worded, with the message computed from the arguments as they
  were before the handler ran, fails for a handler that writes to its arguments: the
  handler lower-cases the collection name, and the message shows the lower-cased name.
\<close>

theorem createActionTool_original_args_counterexample:
  "handler actionToolConfig () articlesArgs []
     = (Inr (), JObj [(''collection'', JStr ''articles'')], [''handler''])
   \<and> fst (handler (createActionTool actionToolConfig) () articlesArgs [])
     = Inr \<lparr>content = [\<lparr>contentType = ''text'',
                          contentText = Some ''Collection articles deleted''\<rparr>]\<rparr>
   \<and> fst (successMessage actionToolConfig articlesArgs [''handler''])
     = ''Collection Articles deleted''
   \<and> fst (handler (createActionTool actionToolConfig) () articlesArgs [])
     \<noteq> Inr \<lparr>content = [\<lparr>contentType = ''text'',
             contentText = Some (fst (successMessage actionToolConfig articlesArgs [''handler'']))\<rparr>]\<rparr>"
  by code_simp


section \<open>Properties of the query encoder\<close>

lemma truthy_iff: "truthy v \<longleftrightarrow> v \<noteq> JNull \<and> v \<noteq> JBool False \<and> v \<noteq> JNum 0 \<and> v \<noteq> JStr []"
  by (cases v) auto

lemma map_fst_whenTruthy:
  "map fst (whenTruthy params k f) = (if \<exists>v. params k = Some v \<and> truthy v then [k] else [])"
  by (auto simp: whenTruthy_def split: option.splits)

lemma map_fst_whenDefined:
  "map fst (whenDefined params k) = (if params k \<noteq> None then [k] else [])"
  by (auto simp: whenDefined_def split: option.splits)

lemma map_of_whenTruthy:
  "map_of (whenTruthy params k f) k' =
     (if k' = k then (case params k of None \<Rightarrow> None | Some v \<Rightarrow> if truthy v then Some (f v) else None)
      else None)"
  by (auto simp: whenTruthy_def split: option.splits)

lemma map_of_whenDefined:
  "map_of (whenDefined params k) k' = (if k' = k then map_option toStr (params k) else None)"
  by (auto simp: whenDefined_def split: option.splits)

lemma map_of_append_if:
  "map_of (xs @ ys) k = (if map_of xs k = None then map_of ys k else map_of xs k)"
  by (simp add: map_add_def split: option.splits)

text \<open>What the encoder appends for each of its keys.\<close>

lemma map_of_queryParams:
  "map_of (queryParams params) ''fields'' = emitted params ''fields'' joinIfArray"
  "map_of (queryParams params) ''filter'' = emitted params ''filter'' JSON_stringify"
  "map_of (queryParams params) ''search'' = emitted params ''search'' toStr"
  "map_of (queryParams params) ''sort'' = emitted params ''sort'' joinIfArray"
  "map_of (queryParams params) ''limit'' = map_option toStr (params ''limit'')"
  "map_of (queryParams params) ''offset'' = map_option toStr (params ''offset'')"
  "map_of (queryParams params) ''page'' = map_option toStr (params ''page'')"
  "map_of (queryParams params) ''aggregate'' = emitted params ''aggregate'' JSON_stringify"
  "map_of (queryParams params) ''groupBy'' = emitted params ''groupBy'' joinIfArray"
  "map_of (queryParams params) ''deep'' = emitted params ''deep'' JSON_stringify"
  "map_of (queryParams params) ''meta'' = emitted params ''meta'' toStr"
  "map_of (queryParams params) ''export'' = emitted params ''export'' toStr"
  unfolding queryParams_def emitted_def
  by (simp_all add: map_of_append_if map_of_whenTruthy map_of_whenDefined del: map_of_append)

lemma filter_Cons_append: "filter P (x # xs) = (if P x then [x] else []) @ filter P xs"
  by simp

lemma map_fst_queryParams:
  assumes "declaredTypes params" and "nonEmptyStrings params"
  shows "map fst (queryParams params) = presentKeys params"
proof -
  have arr: "\<And>k. hasType params k isStringArray \<Longrightarrow>
               (\<exists>v. params k = Some v \<and> truthy v) = (params k \<noteq> None)"
    by (auto simp: hasType_def isStringArray_def split: option.splits json.splits)
  have obj: "\<And>k. hasType params k isObject \<Longrightarrow>
               (\<exists>v. params k = Some v \<and> truthy v) = (params k \<noteq> None)"
    by (auto simp: hasType_def isObject_def split: option.splits json.splits)
  have str: "\<And>k. hasType params k isString \<Longrightarrow> params k \<noteq> Some (JStr []) \<Longrightarrow>
               (\<exists>v. params k = Some v \<and> truthy v) = (params k \<noteq> None)"
    by (auto simp: hasType_def isString_def split: option.splits json.splits)
  have t: "(\<exists>v. params ''fields'' = Some v \<and> truthy v) = (params ''fields'' \<noteq> None)"
    "(\<exists>v. params ''filter'' = Some v \<and> truthy v) = (params ''filter'' \<noteq> None)"
    "(\<exists>v. params ''search'' = Some v \<and> truthy v) = (params ''search'' \<noteq> None)"
    "(\<exists>v. params ''sort'' = Some v \<and> truthy v) = (params ''sort'' \<noteq> None)"
    "(\<exists>v. params ''aggregate'' = Some v \<and> truthy v) = (params ''aggregate'' \<noteq> None)"
    "(\<exists>v. params ''groupBy'' = Some v \<and> truthy v) = (params ''groupBy'' \<noteq> None)"
    "(\<exists>v. params ''deep'' = Some v \<and> truthy v) = (params ''deep'' \<noteq> None)"
    "(\<exists>v. params ''meta'' = Some v \<and> truthy v) = (params ''meta'' \<noteq> None)"
    "(\<exists>v. params ''export'' = Some v \<and> truthy v) = (params ''export'' \<noteq> None)"
    using assms arr obj str unfolding declaredTypes_def nonEmptyStrings_def by blast+
  show ?thesis
    unfolding queryParams_def presentKeys_def queryKeys_def
    by (simp only: map_append map_fst_whenTruthy map_fst_whenDefined t filter_Cons_append
          filter.simps(1) append_Nil2 append_assoc)
qed

lemma emitted_iff:
  "(emitted params k f \<noteq> None) = (\<exists>v. params k = Some v \<and> truthy v)"
  by (auto simp: emitted_def split: option.splits)

text \<open>
  Claim C10, as the code has it.  Read back from the query string, a \<open>limit\<close>,
  \<open>offset\<close> or \<open>page\<close> entry is there whenever the property is not \<open>undefined\<close>, with
  \<open>String\<close> of its value (so \<open>0\<close> gives \<open>limit=0\<close>); every other key is there exactly
  when its value is truthy, that is present and none of \<open>null\<close>, \<open>false\<close>, \<open>0\<close> and the
  empty string.  An array is truthy whatever it holds, so an empty array is emitted,
  with the empty string as its value.
\<close>

theorem buildQueryString_presence:
  "\<exists>pairs. parseBackForm (buildQueryString params) = Some pairs
     \<and> (\<forall>k \<in> set [''limit'', ''offset'', ''page''].
           map_of pairs k = map_option toStr (params k))
     \<and> (\<forall>k \<in> set [''fields'', ''sort'', ''groupBy''].
           map_of pairs k = emitted params k joinIfArray)
     \<and> (\<forall>k \<in> set [''filter'', ''aggregate'', ''deep''].
           map_of pairs k = emitted params k JSON_stringify)
     \<and> (\<forall>k \<in> set [''search'', ''meta'', ''export''].
           map_of pairs k = emitted params k toStr)
     \<and> (\<forall>k f. (emitted params k f \<noteq> None)
           = (\<exists>v. params k = Some v \<and> v \<noteq> JNull \<and> v \<noteq> JBool False \<and> v \<noteq> JNum 0 \<and> v \<noteq> JStr []))"
proof (intro exI conjI)
  show "parseBackForm (buildQueryString params) = Some (queryParams params)"
    by (rule parseBackForm_buildQueryString)
  show "\<forall>k f. (emitted params k f \<noteq> None)
           = (\<exists>v. params k = Some v \<and> v \<noteq> JNull \<and> v \<noteq> JBool False \<and> v \<noteq> JNum 0 \<and> v \<noteq> JStr [])"
    by (simp only: emitted_iff truthy_iff) simp
qed (simp_all only: set_simps ball_simps map_of_queryParams simp_thms)

theorem buildQueryString_presence_witness:
  "buildQueryString falsyBag = ''?fields=&limit=0&offset=0''
   \<and> parseBackForm (buildQueryString falsyBag)
       = Some [(''fields'', []), (''limit'', ''0''), (''offset'', ''0'')]
   \<and> emitted falsyBag ''fields'' joinIfArray = Some []
   \<and> emitted falsyBag ''search'' toStr = None
   \<and> emitted falsyBag ''meta'' toStr = None"
proof -
  have b: "buildQueryString falsyBag = ''?fields=&limit=0&offset=0''" by code_simp
  have p: "parseBackForm ''?fields=&limit=0&offset=0''
           = Some [(''fields'', []), (''limit'', ''0''), (''offset'', ''0'')]" by code_simp
  have e: "emitted falsyBag ''fields'' joinIfArray = Some []"
       "emitted falsyBag ''search'' toStr = None" "emitted falsyBag ''meta'' toStr = None"
       "falsyBag ''limit'' = Some (JNum 0)"
    by code_simp+
  show ?thesis
    using buildQueryString_presence [of falsyBag] b p e by simp
qed

text \<open>
  The claim C10 as it is worded counts an array whose join is the empty string among
  the values that are omitted; the empty field list is emitted as \<open>fields=\<close>.
\<close>

theorem buildQueryString_empty_array_counterexample:
  "emptyFieldsBag ''fields'' = Some (JArr [])
   \<and> arrayJoin '','' [] = []
   \<and> buildQueryString emptyFieldsBag = ''?fields=''
   \<and> parseBackForm (buildQueryString emptyFieldsBag) = Some [(''fields'', [])]"
  by code_simp

text \<open>
  Claim C6, as the code has it.  For every bag whose values have their declared types
  and whose string-valued keys (search, meta, export) do not hold the empty string,
  encoding and then parsing back with form decoding (split on \<open>&\<close> and \<open>=\<close>, read \<open>+\<close> as
  a space, percent-decode) recovers the keys of the bag, for each array-valued key the
  comma-joined array, and for each JSON-valued key a text that \<open>JSON.parse\<close> turns into
  the original structure.
\<close>

theorem buildQueryString_round_trip:
  assumes "declaredTypes params" and "nonEmptyStrings params"
  shows "recoversBag parseBackForm params"
proof -
  have keys: "set (map fst (queryParams params)) = set (presentKeys params)"
    using map_fst_queryParams[OF assms] by simp
  have arr: "\<And>k xs. params k = Some (JArr xs) \<Longrightarrow>
               emitted params k joinIfArray = Some (arrayJoin '','' xs)"
    by (simp add: emitted_def joinIfArray_def)
  have obj: "\<And>k v. hasType params k isObject \<Longrightarrow> params k = Some v \<Longrightarrow>
               Option.bind (emitted params k JSON_stringify) JSON_parse = Some v"
    by (auto simp: emitted_def hasType_def isObject_def JSON_parse_stringify split: json.splits)
  have ty: "hasType params ''filter'' isObject" "hasType params ''aggregate'' isObject"
    "hasType params ''deep'' isObject"
    using assms(1) by (simp_all add: declaredTypes_def)
  have a: "list_all (\<lambda>k. case params k of
                             Some (JArr xs) \<Rightarrow> map_of (queryParams params) k = Some (arrayJoin '','' xs)
                           | _ \<Rightarrow> True)
                [''fields'', ''sort'', ''groupBy'']"
    using arr by (simp add: map_of_queryParams split: option.splits json.splits)
  have j: "list_all (\<lambda>k. case params k of
                             Some v \<Rightarrow> Option.bind (map_of (queryParams params) k) JSON_parse = Some v
                           | None \<Rightarrow> True)
                [''filter'', ''aggregate'', ''deep'']"
    using obj ty by (simp add: map_of_queryParams split: option.splits)
  show ?thesis
    unfolding recoversBag_def parseBackForm_buildQueryString using keys a j by simp
qed

theorem buildQueryString_round_trip_witness:
  "declaredTypes scenarioBag \<and> nonEmptyStrings scenarioBag
   \<and> recoversBag parseBackForm scenarioBag
   \<and> buildQueryString scenarioBag
       = ''?fields=id%2Ctitle&filter=%7B%22status%22%3A%7B%22_eq%22%3A%22published%22%7D%7D&limit=10''"
proof -
  have d: "declaredTypes scenarioBag" by code_simp
  have n: "nonEmptyStrings scenarioBag" by code_simp
  have b: "buildQueryString scenarioBag
       = ''?fields=id%2Ctitle&filter=%7B%22status%22%3A%7B%22_eq%22%3A%22published%22%7D%7D&limit=10''"
    by code_simp
  show ?thesis using buildQueryString_round_trip [OF d n] d n b by simp
qed

text \<open>
  The claim C6 as it is worded fails on a bag with an empty search string and a field
  name with a space: the key \<open>search\<close> is not emitted, so the key set is not recovered,
  and plain percent-decoding reads the field list back as \<open>a+b\<close>, not \<open>a b\<close>.
\<close>

theorem buildQueryString_round_trip_counterexample:
  "declaredTypes emptySearchBag
   \<and> presentKeys emptySearchBag = [''fields'', ''search'']
   \<and> buildQueryString emptySearchBag = ''?fields=a+b''
   \<and> parseBack (buildQueryString emptySearchBag) = Some [(''fields'', ''a+b'')]
   \<and> arrayJoin '','' [JStr ''a b''] = ''a b''
   \<and> \<not> recoversBag parseBack emptySearchBag"
  by code_simp

end
